theory Spec2Isabelle
  imports Complex_Main
begin

section \<open>Python exceptions as values\<close>

text \<open>
  Every \<^verbatim>\<open>raise\<close> of the sources, and every exception raised by a built-in or
  library operation they call, is a value of this type. The constructor is the Python
  exception class; \<open>RuntimeError\<close>, \<open>ValueError\<close> and \<open>KeyError\<close> carry the message
  (for \<open>KeyError\<close>: the missing key).
\<close>

datatype error =
    RuntimeError string
  | ValueError string
  | ValueErrorF string "nat list"
  | TypeError
  | KeyError string
  | IndexError
  | OSError

text \<open>
  A Python \<^verbatim>\<open>str\<close> whose characters matter one by one is a list of code points.
  \<open>ValueErrorF t s\<close> is a \<open>ValueError\<close> too: its message is the text \<open>t\<close> followed by the
  \<^verbatim>\<open>str\<close> \<open>s\<close>, as an f-string builds it.
\<close>

type_synonym pystr = "nat list"

definition codes :: "string \<Rightarrow> pystr" where
  "codes s = map of_char s"

section \<open>models/character.py\<close>

text \<open>The enum \<^verbatim>\<open>Ability\<close>; its members carry the prefix \<open>A_\<close> (\<open>STR\<close> is HOL's
  notation for string literals).\<close>

datatype Ability = A_STR | A_DEX | A_CON | A_INT | A_WIS | A_CHA

text \<open>\<^verbatim>\<open>def ability_modifier(score): return (score - 10) // 2\<close>. Python's \<open>//\<close> on
  integers rounds towards minus infinity, as \<open>div\<close> on \<open>int\<close> does.\<close>

definition ability_modifier :: "int \<Rightarrow> int" where
  "ability_modifier score = (score - 10) div 2"

text \<open>The dataclass \<^verbatim>\<open>Character\<close> of models/character.py. Its field \<^verbatim>\<open>name\<close> is
  \<open>ch_name\<close> here, since the class of the same name in main.py has a field \<open>name\<close> too.
  \<open>abilities\<close> is a dict, \<open>max_hp\<close> is \<^verbatim>\<open>Optional[int]\<close>.\<close>

record Model_Character =
  ch_name :: string
  race :: string
  char_class :: string
  level :: int
  abilities :: "Ability \<rightharpoonup> int"
  max_hp :: "int option"
  proficiency_bonus :: int

text \<open>\<^verbatim>\<open>self.proficiency_bonus = 2 + (self.level - 1) // 4\<close>\<close>

definition sync_proficiency_bonus :: "Model_Character \<Rightarrow> Model_Character" where
  "sync_proficiency_bonus c = c\<lparr>proficiency_bonus := 2 + (level c - 1) div 4\<rparr>"

text \<open>The generated \<^verbatim>\<open>__init__\<close> stores the six init fields and calls
  \<^verbatim>\<open>__post_init__\<close>, which raises for a level below 1 and otherwise computes the
  derived field. \<open>proficiency_bonus\<close> is \<^verbatim>\<open>field(init=False)\<close>: it has no value before
  the sync, so the record is built by the sync itself.\<close>

definition post_init :: "Model_Character \<Rightarrow> error + Model_Character" where
  "post_init c =
     (if level c < 1 then Inl (ValueError ''level must be >= 1'')
      else Inr (sync_proficiency_bonus c))"

definition Model_Character_init ::
  "string \<Rightarrow> string \<Rightarrow> string \<Rightarrow> int \<Rightarrow> (Ability \<rightharpoonup> int) \<Rightarrow> int option
     \<Rightarrow> error + Model_Character" where
  "Model_Character_init n r cc lvl ab mhp =
     post_init \<lparr>ch_name = n, race = r, char_class = cc, level = lvl, abilities = ab,
                max_hp = mhp, proficiency_bonus = 0\<rparr>"

text \<open>The defaults of the dataclass: level 1, every ability 10, no maximum hit points.\<close>

definition default_abilities :: "Ability \<rightharpoonup> int" where
  "default_abilities = (\<lambda>a. Some 10)"

text \<open>\<^verbatim>\<open>ability_mod(self, ability) = ability_modifier(self.abilities[ability])\<close>; the
  dict lookup raises \<open>KeyError\<close> for an ability the dict does not hold.\<close>

fun ability_name :: "Ability \<Rightarrow> string" where
  "ability_name A_STR = ''STR''"
| "ability_name A_DEX = ''DEX''"
| "ability_name A_CON = ''CON''"
| "ability_name A_INT = ''INT''"
| "ability_name A_WIS = ''WIS''"
| "ability_name A_CHA = ''CHA''"

definition ability_mod :: "Model_Character \<Rightarrow> Ability \<Rightarrow> error + int" where
  "ability_mod c a =
     (case abilities c a of
        None \<Rightarrow> Inl (KeyError (ability_name a))
      | Some score \<Rightarrow> Inr (ability_modifier score))"

definition initiative :: "Model_Character \<Rightarrow> error + int" where
  "initiative c = ability_mod c A_DEX"

text \<open>\<^verbatim>\<open>level_up\<close>: \<^verbatim>\<open>self.level += 1; self._sync_proficiency_bonus()\<close>\<close>

definition level_up :: "Model_Character \<Rightarrow> Model_Character" where
  "level_up c = sync_proficiency_bonus (c\<lparr>level := level c + 1\<rparr>)"

section \<open>main.py: core/character.py\<close>

text \<open>The dataclass \<^verbatim>\<open>Stats\<close>; its field \<^verbatim>\<open>int\<close> is \<open>int_score\<close> here (\<open>int\<close> is
  the HOL conversion from \<open>nat\<close>), and the others follow it.\<close>

record Stats =
  str_score :: int
  dex_score :: int
  con_score :: int
  int_score :: int
  wis_score :: int
  cha_score :: int

definition Stats_default :: Stats where
  "Stats_default = \<lparr>str_score = 10, dex_score = 10, con_score = 10,
                     int_score = 10, wis_score = 10, cha_score = 10\<rparr>"

text \<open>\<^verbatim>\<open>def modifier(self, score): return (score - 10) // 2\<close>\<close>

definition modifier :: "Stats \<Rightarrow> int \<Rightarrow> int" where
  "modifier self score = (score - 10) div 2"

text \<open>The dataclass \<^verbatim>\<open>Inventory\<close>.\<close>

record Inventory =
  items :: "string list"
  gold :: int

section \<open>Python values\<close>

text \<open>
  The fields of \<^verbatim>\<open>GameState\<close>, \<^verbatim>\<open>Character\<close> (main.py) and \<^verbatim>\<open>Scene\<close> are filled by
  \<^verbatim>\<open>cls(**data)\<close> from dictionaries that come out of \<^verbatim>\<open>asdict\<close>, JSON or YAML, and a
  dataclass checks no types: a field holds whatever value the dictionary held. So these
  fields are values of one type of Python values: \<^verbatim>\<open>None\<close>, booleans, integers,
  strings, lists, dictionaries with string keys (in insertion order), the two
  dataclass instances a \<^verbatim>\<open>Character\<close> holds by default, and the object that
  \<^verbatim>\<open>random.Random.getstate()\<close> returns, which stands for the generator state \<open>'g\<close> it
  captures. Floating-point numbers are left out.
\<close>

datatype 'g pyval =
    PNone
  | PBool bool
  | PInt int
  | PStr string
  | PList "'g pyval list"
  | PDict "(string \<times> 'g pyval) list"
  | PStats Stats
  | PInventory Inventory
  | PRngState 'g

section \<open>main.py: core/dice.py\<close>

text \<open>
  \<^verbatim>\<open>random.Random\<close> is the standard library's, not this repository's: its operations
  are parameters. \<open>seeded L seed\<close> is the state of \<^verbatim>\<open>random.Random(seed)\<close> (for the
  seed \<open>None\<close>, the state the library picks); \<open>randbelow L g n\<close> is the library's
  draw of a number below \<open>n\<close> from the generator state \<open>g\<close>, with the state after
  the draw; \<open>setstate_foreign L v\<close> is what \<^verbatim>\<open>setstate\<close> does with a value \<open>v\<close> that
  no \<^verbatim>\<open>getstate\<close> returned (the state it installs, or the exception).
\<close>

record 'g random_lib =
  seeded :: "int option \<Rightarrow> 'g"
  randbelow :: "'g \<Rightarrow> nat \<Rightarrow> nat \<times> 'g"
  setstate_foreign :: "'g pyval \<Rightarrow> error + 'g"

text \<open>The library's documented contract for the draw: a number below the bound.\<close>

definition randbelow_in_range :: "'g random_lib \<Rightarrow> bool" where
  "randbelow_in_range L = (\<forall>g n. 0 < n \<longrightarrow> fst (randbelow L g n) < n)"

text \<open>\<^verbatim>\<open>str(n)\<close> for an integer, as the \<^verbatim>\<open>%d\<close> of an error message prints it.\<close>

definition digit_char :: "nat \<Rightarrow> char" where
  "digit_char k = ''0123456789'' ! k"

fun str_nat :: "nat \<Rightarrow> string" where
  "str_nat n = (if n < 10 then [digit_char n] else str_nat (n div 10) @ [digit_char (n mod 10)])"

declare str_nat.simps [simp del]

definition str_int :: "int \<Rightarrow> string" where
  "str_int i = (if i < 0 then CHR ''-'' # str_nat (nat (- i)) else str_nat (nat i))"

text \<open>
  \<^verbatim>\<open>randint(a, b)\<close> is \<^verbatim>\<open>randrange(a, b + 1)\<close>: with \<open>width = b + 1 - a\<close>, it returns
  \<^verbatim>\<open>a + _randbelow(width)\<close> when the width is positive and raises \<open>ValueError\<close>
  for an empty range, before any draw. The message is that of CPython 3.10 and 3.11,
  \<^verbatim>\<open>"empty range for randrange() (%d, %d, %d)" % (start, stop, width)\<close>.
\<close>

definition empty_range :: "int \<Rightarrow> int \<Rightarrow> error" where
  "empty_range start stop =
     ValueError (''empty range for randrange() ('' @ str_int start @ '', '' @ str_int stop
                 @ '', '' @ str_int (stop - start) @ '')'')"

definition randint :: "'g random_lib \<Rightarrow> 'g \<Rightarrow> int \<Rightarrow> int \<Rightarrow> (error + int) \<times> 'g" where
  "randint L g a b =
     (let width = b + 1 - a in
      if 0 < width then
        (case randbelow L g (nat width) of (r, g') \<Rightarrow> (Inr (a + int r), g'))
      else (Inl (empty_range a (b + 1)), g))"

text \<open>The class \<^verbatim>\<open>DiceRoller\<close>: its one field is the generator \<^verbatim>\<open>_rng\<close>.\<close>

record 'g DiceRoller =
  rng :: 'g

text \<open>
  What the interpreter brings to \<^verbatim>\<open>roll\<close>, as parameters. \<open>nonascii_decimal I c\<close> is
  the digit value of the code point \<open>c \<ge> 128\<close> when the interpreter's Unicode database
  has it as a decimal digit (category Nd), and \<open>None\<close> otherwise.
  \<open>int_max_str_digits I\<close> is \<^verbatim>\<open>sys.get_int_max_str_digits()\<close>, the longest run of digits
  that \<^verbatim>\<open>int()\<close> converts: 4300 by default, and 0 when the limit is switched off or
  the interpreter has none (the interpreter lets it be set to 0 or to 640 and more).
\<close>

record pyinterp =
  nonascii_decimal :: "nat \<Rightarrow> nat option"
  int_max_str_digits :: nat

text \<open>
  The pattern \<^verbatim>\<open>\d\<close> of a \<^verbatim>\<open>str\<close> pattern matches the decimal digits of Unicode; below
  128 these are \<open>0\<close> to \<open>9\<close>, the code points 48 to 57. A dice expression is a \<^verbatim>\<open>str\<close>:
  a list of code points.
\<close>

definition decimal_value :: "pyinterp \<Rightarrow> nat \<Rightarrow> nat option" where
  "decimal_value I c =
     (if c < 128 then (if 48 \<le> c \<and> c \<le> 57 then Some (c - 48) else None)
      else nonascii_decimal I c)"

definition is_digit :: "pyinterp \<Rightarrow> nat \<Rightarrow> bool" where
  "is_digit I c = (decimal_value I c \<noteq> None)"

definition digits1 :: "pyinterp \<Rightarrow> pystr \<Rightarrow> bool" where
  "digits1 I ds = (ds \<noteq> [] \<and> list_all (is_digit I) ds)"

text \<open>The class \<^verbatim>\<open>[+-]\<close>: the code points 43 and 45; the letter \<open>d\<close> is 100.\<close>

definition is_sign :: "nat \<Rightarrow> bool" where
  "is_sign c = (c = 43 \<or> c = 45)"

text \<open>
  \<^verbatim>\<open>_roll_re.fullmatch(expr)\<close> for
  \<^verbatim>\<open>(?P<num>\d+)d(?P<sides>\d+)(?P<mod>[+-]\d+)?\<close>: the groups \<open>num\<close>, \<open>sides\<close> and
  \<open>mod\<close> (\<open>None\<close> when the optional group took no part), or \<open>None\<close> when the whole
  string does not match. Neither \<open>d\<close> nor a sign is a digit, so \<open>num\<close> and \<open>sides\<close>
  can only be the longest runs of digits; \<open>roll_re_fullmatch_iff\<close> below proves that
  this is the regular expression's language.
\<close>

definition roll_re_fullmatch :: "pyinterp \<Rightarrow> pystr \<Rightarrow> (pystr \<times> pystr \<times> pystr option) option" where
  "roll_re_fullmatch I expr =
     (let num = takeWhile (is_digit I) expr; r1 = dropWhile (is_digit I) expr in
      if num = [] then None
      else (case r1 of
        [] \<Rightarrow> None
      | c # r2 \<Rightarrow>
          if c \<noteq> 100 then None
          else
            (let sides = takeWhile (is_digit I) r2; r3 = dropWhile (is_digit I) r2 in
             if sides = [] then None
             else (case r3 of
               [] \<Rightarrow> Some (num, sides, None)
             | s # ms \<Rightarrow>
                 if is_sign s \<and> digits1 I ms then Some (num, sides, Some (s # ms)) else None))))"

text \<open>
  The language of the regular expression, read off its structure: \<open>expr\<close> is the
  concatenation of a non-empty run of digits, the letter \<open>d\<close>, a non-empty run of
  digits and, when the optional group takes part, a sign and a non-empty run of
  digits; \<open>n\<close>, \<open>s\<close> and \<open>m\<close> are what the three groups capture.
\<close>

definition roll_re_lang :: "pyinterp \<Rightarrow> pystr \<Rightarrow> pystr \<Rightarrow> pystr option \<Rightarrow> pystr \<Rightarrow> bool" where
  "roll_re_lang I n s m expr =
     (digits1 I n \<and> digits1 I s \<and>
      (case m of
         None \<Rightarrow> expr = n @ [100] @ s
       | Some x \<Rightarrow> x \<noteq> [] \<and> is_sign (hd x) \<and> digits1 I (tl x) \<and> expr = n @ [100] @ s @ x))"

text \<open>
  \<^verbatim>\<open>int(s)\<close> on the strings the groups can hold: a run of digits, with a sign in front
  or not. The value is that of the digits in base ten. When the limit is on and the
  run has more digits than it allows (leading zeros count, the sign does not),
  \<^verbatim>\<open>int\<close> raises \<open>ValueError\<close>; the message is that of CPython 3.11. On a string of
  another form the model raises \<open>ValueError\<close> as well (Python accepts a few more
  forms, with blanks or underscores, which no group can hold).
\<close>

definition digit_val :: "pyinterp \<Rightarrow> nat \<Rightarrow> nat" where
  "digit_val I c = (case decimal_value I c of None \<Rightarrow> 0 | Some v \<Rightarrow> v)"

definition digits_val :: "pyinterp \<Rightarrow> pystr \<Rightarrow> nat" where
  "digits_val I ds = foldl (\<lambda>acc c. 10 * acc + digit_val I c) 0 ds"

definition int_limit_error :: "nat \<Rightarrow> nat \<Rightarrow> error" where
  "int_limit_error limit n =
     ValueError (''Exceeds the limit ('' @ str_nat limit
                 @ '' digits) for integer string conversion: value has '' @ str_nat n
                 @ '' digits; use sys.set_int_max_str_digits() to increase the limit'')"

definition over_limit :: "pyinterp \<Rightarrow> pystr \<Rightarrow> bool" where
  "over_limit I ds = (0 < int_max_str_digits I \<and> int_max_str_digits I < length ds)"

definition py_int :: "pyinterp \<Rightarrow> pystr \<Rightarrow> error + int" where
  "py_int I s =
     (let negative = (s \<noteq> [] \<and> hd s = 45);
          ds = (if s \<noteq> [] \<and> is_sign (hd s) then tl s else s)
      in if \<not> digits1 I ds then Inl (ValueError ''invalid literal for int() with base 10'')
         else if over_limit I ds then Inl (int_limit_error (int_max_str_digits I) (length ds))
         else Inr (if negative then - int (digits_val I ds) else int (digits_val I ds)))"

text \<open>The integer that a captured \<open>mod\<close> group stands for: 0 without the group,
  else the digits' value with the group's sign.\<close>

definition mod_value :: "pyinterp \<Rightarrow> pystr option \<Rightarrow> int" where
  "mod_value I m =
     (case m of
        None \<Rightarrow> 0
      | Some x \<Rightarrow>
          (case x of
             [] \<Rightarrow> 0
           | c # ds \<Rightarrow> if c = 45 then - int (digits_val I ds) else int (digits_val I ds)))"

text \<open>\<^verbatim>\<open>[self._rng.randint(1, sides) for _ in range(num)]\<close>: one draw after the other;
  an exception of a draw ends the comprehension with the generator as it is then.\<close>

fun roll_dice :: "'g random_lib \<Rightarrow> int \<Rightarrow> nat \<Rightarrow> 'g \<Rightarrow> (error + int list) \<times> 'g" where
  "roll_dice L sides 0 g = (Inr [], g)"
| "roll_dice L sides (Suc n) g =
     (case randint L g 1 sides of
        (Inl e, g') \<Rightarrow> (Inl e, g')
      | (Inr v, g') \<Rightarrow>
          (case roll_dice L sides n g' of
             (Inl e, g'') \<Rightarrow> (Inl e, g'')
           | (Inr vs, g'') \<Rightarrow> (Inr (v # vs), g'')))"

text \<open>
  \<^verbatim>\<open>DiceRoller.roll\<close>. The result is the returned pair or the exception, together
  with the roller after the call: an exception leaves the object as the statements
  before it made it. The three \<^verbatim>\<open>int\<close> calls come first, in the order \<open>num\<close>,
  \<open>sides\<close>, \<open>mod\<close>; \<^verbatim>\<open>match["mod"] or 0\<close> is the integer 0 for a group that is \<open>None\<close>
  or empty. \<^verbatim>\<open>range(num)\<close> runs \<open>nat num\<close> times.
\<close>

definition invalid_dice_expression :: "pystr \<Rightarrow> error" where
  "invalid_dice_expression expr = ValueErrorF ''Invalid dice expression: '' expr"

definition roll ::
  "'g random_lib \<Rightarrow> pyinterp \<Rightarrow> 'g DiceRoller \<Rightarrow> pystr
     \<Rightarrow> (error + int \<times> int list) \<times> 'g DiceRoller" where
  "roll L I self expr =
     (case roll_re_fullmatch I expr of
        None \<Rightarrow> (Inl (invalid_dice_expression expr), self)
      | Some (n, s, m) \<Rightarrow>
          (case py_int I n of
             Inl e \<Rightarrow> (Inl e, self)
           | Inr num \<Rightarrow>
          (case py_int I s of
             Inl e \<Rightarrow> (Inl e, self)
           | Inr sides \<Rightarrow>
          (case (case m of None \<Rightarrow> Inr 0 | Some ms \<Rightarrow> if ms = [] then Inr 0 else py_int I ms) of
             Inl e \<Rightarrow> (Inl e, self)
           | Inr md \<Rightarrow>
          (case roll_dice L sides (nat num) (rng self) of
             (Inl e, g') \<Rightarrow> (Inl e, self\<lparr>rng := g'\<rparr>)
           | (Inr rolls, g') \<Rightarrow> (Inr (sum_list rolls + md, rolls), self\<lparr>rng := g'\<rparr>))))))"

text \<open>\<^verbatim>\<open>DiceRoller(seed)\<close>\<close>

definition DiceRoller_init :: "'g random_lib \<Rightarrow> int option \<Rightarrow> 'g DiceRoller" where
  "DiceRoller_init L seed = \<lparr>rng = seeded L seed\<rparr>"

text \<open>\<^verbatim>\<open>get_state\<close> returns the library's state object; \<^verbatim>\<open>set_state\<close> hands its
  argument to the library.\<close>

definition get_state :: "'g DiceRoller \<Rightarrow> 'g pyval" where
  "get_state self = PRngState (rng self)"

definition set_state ::
  "'g random_lib \<Rightarrow> 'g DiceRoller \<Rightarrow> 'g pyval \<Rightarrow> error option \<times> 'g DiceRoller" where
  "set_state L self state =
     (case state of
        PRngState g \<Rightarrow> (None, self\<lparr>rng := g\<rparr>)
      | _ \<Rightarrow>
          (case setstate_foreign L state of
             Inl e \<Rightarrow> (Some e, self)
           | Inr g \<Rightarrow> (None, self\<lparr>rng := g\<rparr>)))"

text \<open>Whether each \<^verbatim>\<open>int\<close> call of \<^verbatim>\<open>roll\<close> gets a run of digits that the limit allows.\<close>

definition groups_within_limit :: "pyinterp \<Rightarrow> pystr \<Rightarrow> pystr \<Rightarrow> pystr option \<Rightarrow> bool" where
  "groups_within_limit I n s m =
     (\<not> over_limit I n \<and> \<not> over_limit I s
      \<and> (case m of None \<Rightarrow> True | Some x \<Rightarrow> \<not> over_limit I (tl x)))"

text \<open>
  The contract of section 4.1 of the specification, in its words: count, \<open>d\<close>, sides
  and an optional signed modifier, with count and sides positive integers. A string
  is in the grammar when it can be cut into these parts.
\<close>

fun splits :: "pystr \<Rightarrow> (pystr \<times> pystr) list" where
  "splits [] = [([], [])]"
| "splits (x # xs) = ([], x # xs) # map (\<lambda>(a, b). (x # a, b)) (splits xs)"

definition positive_integer :: "pyinterp \<Rightarrow> pystr \<Rightarrow> bool" where
  "positive_integer I ds = (digits1 I ds \<and> 0 < digits_val I ds)"

definition optional_modifier :: "pyinterp \<Rightarrow> pystr \<Rightarrow> bool" where
  "optional_modifier I m = (case m of [] \<Rightarrow> True | c # ms \<Rightarrow> is_sign c \<and> digits1 I ms)"

definition spec_grammar :: "pyinterp \<Rightarrow> pystr \<Rightarrow> bool" where
  "spec_grammar I expr =
     list_ex (\<lambda>(count, r1).
        positive_integer I count \<and>
        (case r1 of
           [] \<Rightarrow> False
         | c # r2 \<Rightarrow> c = 100 \<and>
             list_ex (\<lambda>(sides, m). positive_integer I sides \<and> optional_modifier I m) (splits r2)))
       (splits expr)"

text \<open>A generator to run the model on: a linear congruential one. It is an example,
  not the library's Mersenne Twister; it rejects every foreign state.\<close>

definition example_lib :: "nat random_lib" where
  "example_lib =
     \<lparr>seeded = (\<lambda>seed. case seed of None \<Rightarrow> 0 | Some k \<Rightarrow> nat \<bar>k\<bar>),
      randbelow = (\<lambda>g n. (g mod n, (1103515245 * g + 12345) mod 2147483648)),
      setstate_foreign = (\<lambda>v. Inl TypeError)\<rparr>"

text \<open>An interpreter to run the model on: the default limit of 4300 digits, and, of
  the decimal digits beyond ASCII, the Arabic-Indic ones (U+0660 to U+0669).\<close>

definition example_interp :: pyinterp where
  "example_interp =
     \<lparr>nonascii_decimal = (\<lambda>c. if 1632 \<le> c \<and> c \<le> 1641 then Some (c - 1632) else None),
      int_max_str_digits = 4300\<rparr>"

text \<open>The valid expression \<open>0...01d6\<close> with 4300 zeros in front of the count 1.\<close>

definition long_count_expr :: pystr where
  "long_count_expr = replicate 4300 48 @ codes ''1d6''"

section \<open>Built-in operations on values\<close>

text \<open>
  \<^verbatim>\<open>dataclasses.asdict\<close> on a field's value: a dataclass instance becomes the dict of
  its fields, lists and dicts are rebuilt with their elements converted, and anything
  else is copied.
\<close>

fun asdict_inner :: "'g pyval \<Rightarrow> 'g pyval" where
  "asdict_inner (PStats s) =
     PDict [(''str'', PInt (str_score s)), (''dex'', PInt (dex_score s)),
            (''con'', PInt (con_score s)), (''int'', PInt (int_score s)),
            (''wis'', PInt (wis_score s)), (''cha'', PInt (cha_score s))]"
| "asdict_inner (PInventory i) =
     PDict [(''items'', PList (map PStr (items i))), (''gold'', PInt (gold i))]"
| "asdict_inner (PList xs) = PList (map asdict_inner xs)"
| "asdict_inner (PDict kvs) = PDict (map (\<lambda>(k, v). (k, asdict_inner v)) kvs)"
| "asdict_inner v = v"

text \<open>\<^verbatim>\<open>data[key]\<close> for a string key: only a dict can be subscripted with a string,
  and it raises \<open>KeyError\<close> for a key it does not hold.\<close>

definition getitem_str :: "'g pyval \<Rightarrow> string \<Rightarrow> error + 'g pyval" where
  "getitem_str data key =
     (case data of
        PDict kvs \<Rightarrow> (case map_of kvs key of None \<Rightarrow> Inl (KeyError key) | Some v \<Rightarrow> Inr v)
      | _ \<Rightarrow> Inl TypeError)"

text \<open>
  \<^verbatim>\<open>xs[idx]\<close> on a list: the index must be an integer (a boolean is one: \<open>True\<close> is 1),
  a negative index counts from the end, and an index out of range raises
  \<open>IndexError\<close>.
\<close>

definition as_index :: "'g pyval \<Rightarrow> int option" where
  "as_index v =
     (case v of PInt i \<Rightarrow> Some i | PBool b \<Rightarrow> Some (if b then 1 else 0) | _ \<Rightarrow> None)"

definition list_getitem :: "'a list \<Rightarrow> 'g pyval \<Rightarrow> error + 'a" where
  "list_getitem xs idx =
     (case as_index idx of
        None \<Rightarrow> Inl TypeError
      | Some i \<Rightarrow>
          (let n = int (length xs); j = (if i < 0 then i + n else i)
           in if 0 \<le> j \<and> j < n then Inr (xs ! nat j) else Inl IndexError))"

text \<open>A comprehension \<^verbatim>\<open>[f(d) for d in xs]\<close> whose \<open>f\<close> can raise: the first exception
  ends it.\<close>

fun mapM :: "('a \<Rightarrow> error + 'b) \<Rightarrow> 'a list \<Rightarrow> error + 'b list" where
  "mapM f [] = Inr []"
| "mapM f (x # xs) =
     (case f x of
        Inl e \<Rightarrow> Inl e
      | Inr y \<Rightarrow> (case mapM f xs of Inl e \<Rightarrow> Inl e | Inr ys \<Rightarrow> Inr (y # ys)))"

text \<open>
  \<^verbatim>\<open>[cls(**d) for d in v]\<close> for a constructor call \<open>f\<close> that raises \<open>TypeError\<close> on
  whatever is not a dict. A list gives its elements, a string its characters, a dict
  its keys. A generator state is a tuple that starts with an integer, so the first
  call raises \<open>TypeError\<close>; the other values cannot be iterated.
\<close>

definition for_each :: "('g pyval \<Rightarrow> error + 'b) \<Rightarrow> 'g pyval \<Rightarrow> error + 'b list" where
  "for_each f v =
     (case v of
        PList xs \<Rightarrow> mapM f xs
      | PStr cs \<Rightarrow> mapM f (map (\<lambda>c. PStr [c]) cs)
      | PDict kvs \<Rightarrow> mapM f (map (\<lambda>(k, _). PStr k) kvs)
      | _ \<Rightarrow> Inl TypeError)"

text \<open>
  The keyword check of a generated \<^verbatim>\<open>__init__\<close> called as \<^verbatim>\<open>cls(**data)\<close>: every key
  must be a field, and every field without a default must be given; otherwise
  \<open>TypeError\<close>.
\<close>

definition kwargs_ok :: "string list \<Rightarrow> string list \<Rightarrow> (string \<times> 'v) list \<Rightarrow> bool" where
  "kwargs_ok field_names required kvs =
     (list_all (\<lambda>k. k \<in> set field_names) (map fst kvs)
      \<and> list_all (\<lambda>k. k \<in> set (map fst kvs)) required)"

definition kwarg :: "(string \<times> 'v) list \<Rightarrow> string \<Rightarrow> 'v \<Rightarrow> 'v" where
  "kwarg kvs key dflt = (case map_of kvs key of None \<Rightarrow> dflt | Some v \<Rightarrow> v)"

section \<open>main.py: core/character.py, the class Character\<close>

record 'g Character =
  name :: "'g pyval"
  stats :: "'g pyval"
  hp :: "'g pyval"
  xp :: "'g pyval"
  inventory :: "'g pyval"

text \<open>\<^verbatim>\<open>to_dict\<close> is \<^verbatim>\<open>asdict(self)\<close>.\<close>

definition Character_to_dict :: "'g Character \<Rightarrow> 'g pyval" where
  "Character_to_dict self =
     PDict [(''name'', asdict_inner (name self)), (''stats'', asdict_inner (stats self)),
            (''hp'', asdict_inner (hp self)), (''xp'', asdict_inner (xp self)),
            (''inventory'', asdict_inner (inventory self))]"

text \<open>\<^verbatim>\<open>from_dict\<close> is \<^verbatim>\<open>cls(**data)\<close>: \<open>name\<close> is required, the other fields default to
  \<^verbatim>\<open>Stats()\<close>, 10, 0 and \<^verbatim>\<open>Inventory(items=[])\<close>. The values are stored as they are.
  (The class is taken as defined: an interpreter that rejects a dataclass instance as
  a field default does not get as far as any of this.)\<close>

definition Character_from_dict :: "'g pyval \<Rightarrow> error + 'g Character" where
  "Character_from_dict data =
     (case data of
        PDict kvs \<Rightarrow>
          if kwargs_ok [''name'', ''stats'', ''hp'', ''xp'', ''inventory''] [''name''] kvs then
            Inr \<lparr>name = kwarg kvs ''name'' PNone,
                 stats = kwarg kvs ''stats'' (PStats Stats_default),
                 hp = kwarg kvs ''hp'' (PInt 10),
                 xp = kwarg kvs ''xp'' (PInt 0),
                 inventory = kwarg kvs ''inventory'' (PInventory \<lparr>items = [], gold = 0\<rparr>)\<rparr>
          else Inl TypeError
      | _ \<Rightarrow> Inl TypeError)"

section \<open>main.py: core/party.py\<close>

text \<open>\<^verbatim>\<open>Party\<close> is a list of characters.\<close>

type_synonym 'g Party = "'g Character list"

text \<open>\<^verbatim>\<open>any(ch.hp > 0 for ch in self)\<close>, for hit points that are integers; the comparison
  of another value with 0 raises \<open>TypeError\<close>, unless an earlier member ended the search.\<close>

fun any_alive :: "'g Party \<Rightarrow> error + bool" where
  "any_alive [] = Inr False"
| "any_alive (ch # rest) =
     (case as_index (hp ch) of
        None \<Rightarrow> Inl TypeError
      | Some h \<Rightarrow> if 0 < h then Inr True else any_alive rest)"

definition Party_to_dict :: "'g Party \<Rightarrow> 'g pyval" where
  "Party_to_dict self = PDict [(''members'', PList (map Character_to_dict self))]"

text \<open>\<^verbatim>\<open>cls(Character.from_dict(d) for d in data["members"])\<close>\<close>

definition Party_from_dict :: "'g pyval \<Rightarrow> error + 'g Party" where
  "Party_from_dict data =
     (case getitem_str data ''members'' of
        Inl e \<Rightarrow> Inl e
      | Inr members \<Rightarrow> for_each Character_from_dict members)"

section \<open>main.py: content/story_setup.py\<close>

text \<open>The dataclass \<^verbatim>\<open>Scene\<close>; its fields \<^verbatim>\<open>id\<close> and \<^verbatim>\<open>text\<close> are \<open>scene_id\<close> and
  \<open>scene_text\<close> here (\<open>id\<close> is HOL's identity function).\<close>

record 'g Scene =
  scene_id :: "'g pyval"
  scene_text :: "'g pyval"
  monsters :: "'g pyval"
  choices :: "'g pyval"

text \<open>\<^verbatim>\<open>Scene(**s)\<close>: \<open>id\<close> and \<open>text\<close> are required; \<open>monsters\<close> defaults to the empty
  list and \<open>choices\<close> to the empty dict.\<close>

definition Scene_init :: "'g pyval \<Rightarrow> error + 'g Scene" where
  "Scene_init s =
     (case s of
        PDict kvs \<Rightarrow>
          if kwargs_ok [''id'', ''text'', ''monsters'', ''choices''] [''id'', ''text''] kvs then
            Inr \<lparr>scene_id = kwarg kvs ''id'' PNone,
                 scene_text = kwarg kvs ''text'' PNone,
                 monsters = kwarg kvs ''monsters'' (PList []),
                 choices = kwarg kvs ''choices'' (PDict [])\<rparr>
          else Inl TypeError
      | _ \<Rightarrow> Inl TypeError)"

definition Scene_asdict :: "'g Scene \<Rightarrow> 'g pyval" where
  "Scene_asdict sc =
     PDict [(''id'', asdict_inner (scene_id sc)), (''text'', asdict_inner (scene_text sc)),
            (''monsters'', asdict_inner (monsters sc)), (''choices'', asdict_inner (choices sc))]"

text \<open>What a process can see of its side effects on the terminal, in order: the text
  that \<^verbatim>\<open>Scene.enter\<close> prints, and the calls of the two hooks of \<^verbatim>\<open>DM\<close>, which print
  their fixed messages.\<close>

datatype 'g event = SceneText "'g pyval" | WinScreen | LoseScreen

text \<open>\<^verbatim>\<open>Scene.enter(party, dm)\<close> prints the text and changes neither argument.\<close>

definition enter :: "'g Scene \<Rightarrow> 'g event list \<Rightarrow> 'g event list" where
  "enter self out = out @ [SceneText (scene_text self)]"

record 'g StorySetup =
  scenes :: "'g Scene list"

text \<open>\<^verbatim>\<open>from_dict\<close>: \<^verbatim>\<open>cls([Scene(**s) for s in data["scenes"]])\<close>\<close>

definition StorySetup_from_dict :: "'g pyval \<Rightarrow> error + 'g StorySetup" where
  "StorySetup_from_dict data =
     (case getitem_str data ''scenes'' of
        Inl e \<Rightarrow> Inl e
      | Inr ss \<Rightarrow>
          (case for_each Scene_init ss of
             Inl e \<Rightarrow> Inl e
           | Inr scs \<Rightarrow> Inr \<lparr>scenes = scs\<rparr>))"

text \<open>
  \<^verbatim>\<open>load(path)\<close> opens the file and hands it to \<^verbatim>\<open>yaml.safe_load\<close>; both are the
  platform's, so their joint result is a parameter: \<open>read_yaml path\<close> is the parsed
  document, or the exception of the file system or the parser. The rest is
  \<^verbatim>\<open>from_dict\<close>'s comprehension on the document.
\<close>

definition StorySetup_load :: "(string \<Rightarrow> error + 'g pyval) \<Rightarrow> string \<Rightarrow> error + 'g StorySetup" where
  "StorySetup_load read_yaml path =
     (case read_yaml path of
        Inl e \<Rightarrow> Inl e
      | Inr raw \<Rightarrow> StorySetup_from_dict raw)"

definition StorySetup_to_dict :: "'g StorySetup \<Rightarrow> 'g pyval" where
  "StorySetup_to_dict self = PDict [(''scenes'', PList (map Scene_asdict (scenes self)))]"

text \<open>The campaign \<^verbatim>\<open>content/campaigns/goblin_caves.yml\<close>, as \<^verbatim>\<open>yaml.safe_load\<close> reads
  it.\<close>

definition goblin_caves :: "'g pyval" where
  "goblin_caves =
     PDict [(''scenes'', PList [
       PDict [(''id'', PStr ''intro''),
              (''text'', PStr (''You stand before the mouth of a dank cave.  A foul goblin smell\<newline>''
                               @ ''wafts out.  Your adventure begins!\<newline>'')),
              (''monsters'', PList []),
              (''choices'', PDict [(''deeper'', PStr ''room1'')])],
       PDict [(''id'', PStr ''room1''),
              (''text'', PStr ''A pair of goblins shriek and draw rusty blades.\<newline>''),
              (''monsters'', PList [PStr ''goblin'', PStr ''goblin'']),
              (''choices'', PDict [(''forward'', PStr ''treasure''), (''flee'', PStr ''intro'')])],
       PDict [(''id'', PStr ''treasure''),
              (''text'', PStr ''The chamber glitters with coins.  You have cleared the cave!\<newline>''),
              (''monsters'', PList []),
              (''choices'', PDict [])]])]"

section \<open>main.py: core/dm.py\<close>

text \<open>The class \<^verbatim>\<open>DM\<close>. \<open>party\<close> and \<open>story\<close> are \<open>None\<close> until \<^verbatim>\<open>start\<close>;
  \<open>current_scene_idx\<close> holds whatever was last assigned to it.\<close>

record 'g DM =
  dice :: "'g DiceRoller"
  ruleset :: "'g pyval"
  party :: "'g Party option"
  story :: "'g StorySetup option"
  current_scene_idx :: "'g pyval"

definition DM_init :: "'g random_lib \<Rightarrow> int option \<Rightarrow> 'g DM" where
  "DM_init L rng_seed =
     \<lparr>dice = DiceRoller_init L rng_seed, ruleset = PNone, party = None, story = None,
      current_scene_idx = PInt (- 1)\<rparr>"

text \<open>
  A method that mutates the director returns the exception it raised, if any, and the
  director as the statements before the \<^verbatim>\<open>raise\<close> left it.

  \<^verbatim>\<open>start\<close>: the three assignments happen after \<^verbatim>\<open>StorySetup.load\<close> has returned.
\<close>

definition start ::
  "(string \<Rightarrow> error + 'g pyval) \<Rightarrow> 'g DM \<Rightarrow> string \<Rightarrow> error option \<times> 'g DM" where
  "start read_yaml self story_path =
     (case StorySetup_load read_yaml story_path of
        Inl e \<Rightarrow> (Some e, self)
      | Inr st \<Rightarrow> (None, self\<lparr>story := Some st, party := Some [], current_scene_idx := PInt 0\<rparr>))"

definition win_screen :: "'g event list \<Rightarrow> 'g event list" where
  "win_screen out = out @ [WinScreen]"

definition lose_screen :: "'g event list \<Rightarrow> 'g event list" where
  "lose_screen out = out @ [LoseScreen]"

text \<open>
  \<^verbatim>\<open>play_next\<close>, on the director and the terminal output so far. The lookup raises
  for a cursor that is not an integer, so after it the cursor is one (or a boolean,
  which \<^verbatim>\<open>+= 1\<close> turns into one), and \<open>idx\<close> is that integer plus 1.
\<close>

definition play_next ::
  "'g DM \<times> 'g event list \<Rightarrow> error option \<times> 'g DM \<times> 'g event list" where
  "play_next = (\<lambda>(self, out).
     case story self of
       None \<Rightarrow> (Some (RuntimeError ''DM.start() must be called first.''), self, out)
     | Some st \<Rightarrow>
     (case party self of
       None \<Rightarrow> (Some (RuntimeError ''DM.start() must be called first.''), self, out)
     | Some p \<Rightarrow>
     (case list_getitem (scenes st) (current_scene_idx self) of
       Inl e \<Rightarrow> (Some e, self, out)
     | Inr scene \<Rightarrow>
         (let out1 = enter scene out;
              idx = (case as_index (current_scene_idx self) of None \<Rightarrow> 0 | Some i \<Rightarrow> i) + 1;
              self1 = self\<lparr>current_scene_idx := PInt idx\<rparr>
          in if idx \<ge> int (length (scenes st)) then (None, self1, win_screen out1)
             else (None, self1, out1)))))"

text \<open>A caller that calls \<^verbatim>\<open>play_next\<close> \<open>k\<close> times, as the command loop does on empty
  input, and stops at the first exception.\<close>

fun play_n :: "nat \<Rightarrow> 'g DM \<times> 'g event list \<Rightarrow> error option \<times> 'g DM \<times> 'g event list" where
  "play_n 0 s = (None, s)"
| "play_n (Suc k) s =
     (case play_next s of
        (Some e, s') \<Rightarrow> (Some e, s')
      | (None, s') \<Rightarrow> play_n k s')"

section \<open>main.py: core/state.py\<close>

text \<open>The dataclass \<^verbatim>\<open>GameState\<close>; its fields carry the prefix \<open>gs_\<close>, since \<^verbatim>\<open>DM\<close> has
  fields of the same names.\<close>

record 'g GameState =
  gs_party :: "'g pyval"
  gs_story_state :: "'g pyval"
  gs_current_scene_idx :: "'g pyval"
  gs_rng_state :: "'g pyval"

text \<open>\<^verbatim>\<open>from_dict\<close> is \<^verbatim>\<open>cls(**data)\<close>; all four fields are required.\<close>

definition GameState_fields :: "string list" where
  "GameState_fields = [''party'', ''story_state'', ''current_scene_idx'', ''rng_state'']"

definition GameState_from_dict :: "'g pyval \<Rightarrow> error + 'g GameState" where
  "GameState_from_dict data =
     (case data of
        PDict kvs \<Rightarrow>
          if kwargs_ok GameState_fields GameState_fields kvs then
            Inr \<lparr>gs_party = kwarg kvs ''party'' PNone,
                 gs_story_state = kwarg kvs ''story_state'' PNone,
                 gs_current_scene_idx = kwarg kvs ''current_scene_idx'' PNone,
                 gs_rng_state = kwarg kvs ''rng_state'' PNone\<rparr>
          else Inl TypeError
      | _ \<Rightarrow> Inl TypeError)"

text \<open>
  \<^verbatim>\<open>from_dm\<close>. \<^verbatim>\<open>dm.party.to_dict() if dm.party else {}\<close> tests the truth value of the
  party: \<open>None\<close> is false, and so is an empty \<^verbatim>\<open>Party\<close>, which is an empty list. A
  \<^verbatim>\<open>StorySetup\<close> is a plain dataclass instance and always true.
\<close>

definition from_dm :: "'g DM \<Rightarrow> 'g GameState" where
  "from_dm dm =
     \<lparr>gs_party = (case party dm of
                    None \<Rightarrow> PDict []
                  | Some p \<Rightarrow> if p \<noteq> [] then Party_to_dict p else PDict []),
      gs_story_state = (case story dm of
                          None \<Rightarrow> PDict []
                        | Some st \<Rightarrow> StorySetup_to_dict st),
      gs_current_scene_idx = current_scene_idx dm,
      gs_rng_state = get_state (dice dm)\<rparr>"

text \<open>\<^verbatim>\<open>apply_to_dm\<close>: four statements, each of which can raise after the ones before
  it have taken effect.\<close>

definition apply_to_dm ::
  "'g random_lib \<Rightarrow> 'g GameState \<Rightarrow> 'g DM \<Rightarrow> error option \<times> 'g DM" where
  "apply_to_dm L self dm =
     (case Party_from_dict (gs_party self) of
        Inl e \<Rightarrow> (Some e, dm)
      | Inr p \<Rightarrow>
     (let dm1 = dm\<lparr>party := Some p\<rparr> in
      case StorySetup_from_dict (gs_story_state self) of
        Inl e \<Rightarrow> (Some e, dm1)
      | Inr st \<Rightarrow>
     (let dm2 = dm1\<lparr>story := Some st\<rparr>;
          dm3 = dm2\<lparr>current_scene_idx := gs_current_scene_idx self\<rparr>
      in case set_state L (dice dm3) (gs_rng_state self) of
           (e, d) \<Rightarrow> (e, dm3\<lparr>dice := d\<rparr>))))"

section \<open>main.py: adapters/persistence.py\<close>

text \<open>
  \<^verbatim>\<open>Serializer.load\<close> opens the file and hands it to \<^verbatim>\<open>json.load\<close>; as for the
  campaign, their joint result is a parameter: \<open>read_json path\<close> is the parsed
  document, or the exception of the file system or of the parser.
\<close>

definition Serializer_load :: "(string \<Rightarrow> error + 'g pyval) \<Rightarrow> string \<Rightarrow> error + 'g GameState" where
  "Serializer_load read_json path =
     (case read_json path of
        Inl e \<Rightarrow> Inl e
      | Inr data \<Rightarrow> GameState_from_dict data)"

text \<open>\<^verbatim>\<open>DM.load\<close>\<close>

definition load ::
  "'g random_lib \<Rightarrow> (string \<Rightarrow> error + 'g pyval) \<Rightarrow> 'g DM \<Rightarrow> string \<Rightarrow> error option \<times> 'g DM" where
  "load L read_json self path =
     (case Serializer_load read_json path of
        Inl e \<Rightarrow> (Some e, self)
      | Inr state \<Rightarrow> apply_to_dm L state self)"

text \<open>The director of the command loop: a new one, started on the campaign above
  (whatever the path, the file read is that campaign). The generator is the example
  one.\<close>

definition read_goblin_caves :: "string \<Rightarrow> error + nat pyval" where
  "read_goblin_caves path = Inr goblin_caves"

definition goblin_dm :: "nat DM" where
  "goblin_dm = snd (start read_goblin_caves (DM_init example_lib None) ''goblin_caves.yml'')"

section \<open>Snapshots\<close>

text \<open>
  The invariant of section 3 of the specification, in its words, on a snapshot:
  \<open>0 \<le> current_scene_idx \<le> len(scenes)\<close>, where \<open>current_scene_idx\<close> is the integer
  of that field and \<open>scenes\<close> the list under that key in \<open>story_state\<close>.
\<close>

definition snapshot_invariant :: "'g GameState \<Rightarrow> bool" where
  "snapshot_invariant gs =
     (case gs_current_scene_idx gs of
        PInt i \<Rightarrow>
          (case getitem_str (gs_story_state gs) ''scenes'' of
             Inr (PList scs) \<Rightarrow> 0 \<le> i \<and> i \<le> int (length scs)
           | _ \<Rightarrow> False)
      | _ \<Rightarrow> False)"

text \<open>
  What \<^verbatim>\<open>from_dict\<close> makes of the \<^verbatim>\<open>to_dict\<close> of a character and of a scene: every field
  holds the \<^verbatim>\<open>asdict\<close> form of the original value, so a \<^verbatim>\<open>Stats\<close> or \<^verbatim>\<open>Inventory\<close>
  instance has become a dict.
\<close>

definition restored_Character :: "'g Character \<Rightarrow> 'g Character" where
  "restored_Character c =
     \<lparr>name = asdict_inner (name c), stats = asdict_inner (stats c), hp = asdict_inner (hp c),
      xp = asdict_inner (xp c), inventory = asdict_inner (inventory c)\<rparr>"

definition restored_Scene :: "'g Scene \<Rightarrow> 'g Scene" where
  "restored_Scene sc =
     \<lparr>scene_id = asdict_inner (scene_id sc), scene_text = asdict_inner (scene_text sc),
      monsters = asdict_inner (monsters sc), choices = asdict_inner (choices sc)\<rparr>"

section \<open>Directors that the operations can produce\<close>

text \<open>
  The states of a director: a new one, and what \<^verbatim>\<open>start\<close>, \<^verbatim>\<open>play_next\<close> and a roll of
  its dice make of one (whether they raise or not), what \<^verbatim>\<open>apply_to_dm\<close> makes of one
  with the snapshot of another, and what the character creation step, which the code
  leaves to its callers, makes of a started one by adding members to the party.
\<close>

inductive reachable :: "'g random_lib \<Rightarrow> (string \<Rightarrow> error + 'g pyval) \<Rightarrow> 'g DM \<Rightarrow> bool"
  for L :: "'g random_lib" and read_yaml :: "string \<Rightarrow> error + 'g pyval" where
  r_init: "reachable L read_yaml (DM_init L seed)"
| r_start: "reachable L read_yaml d \<Longrightarrow> reachable L read_yaml (snd (start read_yaml d path))"
| r_play: "reachable L read_yaml d \<Longrightarrow> reachable L read_yaml (fst (snd (play_next (d, out))))"
| r_roll: "reachable L read_yaml d \<Longrightarrow>
     reachable L read_yaml (d\<lparr>dice := snd (roll L I (dice d) expr)\<rparr>)"
| r_members: "reachable L read_yaml d \<Longrightarrow> party d = Some p \<Longrightarrow>
     reachable L read_yaml (d\<lparr>party := Some (p @ cs)\<rparr>)"
| r_apply: "reachable L read_yaml d \<Longrightarrow> reachable L read_yaml d2 \<Longrightarrow>
     reachable L read_yaml (snd (apply_to_dm L (from_dm d) d2))"

text \<open>What holds of every such director: without a story it has no party and the
  cursor \<open>-1\<close>; with a story the cursor is an integer from 0 to the number of scenes.\<close>

definition dm_inv :: "'g DM \<Rightarrow> bool" where
  "dm_inv d =
     (case story d of
        None \<Rightarrow> party d = None \<and> current_scene_idx d = PInt (- 1)
      | Some st \<Rightarrow> \<exists>i. current_scene_idx d = PInt i \<and> 0 \<le> i \<and> i \<le> int (length (scenes st)))"

section \<open>Ability modifiers and the proficiency bonus\<close>

lemma floor_half: "\<lfloor>real_of_int k / 2\<rfloor> = k div 2"
  by (metis floor_divide_of_int_eq of_int_numeral)

lemma level_up_level: "level (level_up c) = level c + 1"
  by (simp add: level_up_def sync_proficiency_bonus_def)

lemma level_up_bonus: "proficiency_bonus (level_up c) = 2 + (level (level_up c) - 1) div 4"
  by (simp add: level_up_def sync_proficiency_bonus_def)

lemma level_up_iter_level: "level ((level_up ^^ n) c) = level c + int n"
  by (induction n) (simp_all add: level_up_level)

lemma init_bonus:
  "Model_Character_init n r cc lvl ab mhp = Inr c \<Longrightarrow>
     level c = lvl \<and> 1 \<le> lvl \<and> proficiency_bonus c = 2 + (lvl - 1) div 4"
  by (auto simp: Model_Character_init_def post_init_def sync_proficiency_bonus_def
           split: if_splits)

lemma init_fails_below_1:
  "lvl < 1 \<Longrightarrow> Model_Character_init n r cc lvl ab mhp = Inl (ValueError ''level must be >= 1'')"
  by (simp add: Model_Character_init_def post_init_def)

lemma init_succeeds_from_1:
  "1 \<le> lvl \<Longrightarrow> \<exists>c. Model_Character_init n r cc lvl ab mhp = Inr c"
  by (simp add: Model_Character_init_def post_init_def)

text \<open>
  Claim C8. For every integer score, \<open>Stats.modifier\<close> and \<open>ability_modifier\<close> return
  the mathematical floor of \<open>(score - 10) / 2\<close>, taken over the reals; the method
  \<open>ability_mod\<close> returns the same for the score it looks up. At score 9 the value is
  \<open>-1\<close>, where truncation towards zero would give 0.
\<close>

theorem C8_ability_modifier_is_floor:
  "modifier st s = \<lfloor>(real_of_int s - 10) / 2\<rfloor>
   \<and> ability_modifier s = \<lfloor>(real_of_int s - 10) / 2\<rfloor>
   \<and> ability_mod (c\<lparr>abilities := (abilities c)(a \<mapsto> s)\<rparr>) a = Inr \<lfloor>(real_of_int s - 10) / 2\<rfloor>
   \<and> modifier st 9 = -1 \<and> ability_modifier 9 = -1"
proof -
  have "\<lfloor>(real_of_int s - 10) / 2\<rfloor> = (s - 10) div 2"
    using floor_half [of "s - 10"] by simp
  then show ?thesis
    by (simp add: modifier_def ability_modifier_def ability_mod_def)
qed

text \<open>
  Claim C9. Constructing a character with a level below 1 fails with \<open>ValueError\<close>;
  with a level of at least 1 it succeeds, and then, after any number \<open>k\<close> of
  \<open>level_up\<close> calls, \<open>proficiency_bonus\<close> equals \<open>2 + (level - 1) // 4\<close> for the
  level the character has at that moment, which is the initial level plus \<open>k\<close>.
\<close>

theorem C9_proficiency_bonus_invariant:
  "(lvl < 1 \<longrightarrow>
      Model_Character_init n r cc lvl ab mhp = Inl (ValueError ''level must be >= 1''))
   \<and> (1 \<le> lvl \<longrightarrow> (\<exists>c. Model_Character_init n r cc lvl ab mhp = Inr c))
   \<and> (\<forall>c k. Model_Character_init n r cc lvl ab mhp = Inr c \<longrightarrow>
         level ((level_up ^^ k) c) = lvl + int k
         \<and> proficiency_bonus ((level_up ^^ k) c) = 2 + (level ((level_up ^^ k) c) - 1) div 4)"
proof (intro conjI allI impI)
  assume "lvl < 1"
  then show "Model_Character_init n r cc lvl ab mhp = Inl (ValueError ''level must be >= 1'')"
    by (rule init_fails_below_1)
next
  assume "1 \<le> lvl"
  then show "\<exists>c. Model_Character_init n r cc lvl ab mhp = Inr c"
    by (rule init_succeeds_from_1)
next
  fix c k
  assume ok: "Model_Character_init n r cc lvl ab mhp = Inr c"
  then show "level ((level_up ^^ k) c) = lvl + int k"
    using init_bonus [OF ok] by (simp add: level_up_iter_level)
next
  fix c k
  assume ok: "Model_Character_init n r cc lvl ab mhp = Inr c"
  show "proficiency_bonus ((level_up ^^ k) c) = 2 + (level ((level_up ^^ k) c) - 1) div 4"
  proof (cases k)
    case 0
    then show ?thesis using init_bonus [OF ok] by simp
  next
    case (Suc j)
    then show ?thesis by (simp add: level_up_bonus)
  qed
qed

theorem C9_proficiency_bonus_invariant_witness:
  "Model_Character_init ''Lyra'' ''Elf'' ''Rogue'' 0 default_abilities None
     = Inl (ValueError ''level must be >= 1'')
   \<and> (\<exists>c. Model_Character_init ''Lyra'' ''Elf'' ''Rogue'' 1 default_abilities None = Inr c
          \<and> level ((level_up ^^ 4) c) = 5
          \<and> proficiency_bonus ((level_up ^^ 4) c) = 3)"
proof -
  have bad: "Model_Character_init ''Lyra'' ''Elf'' ''Rogue'' 0 default_abilities None
     = Inl (ValueError ''level must be >= 1'')"
    using C9_proficiency_bonus_invariant [of 0 "''Lyra''" "''Elf''" "''Rogue''" default_abilities None]
    by simp
  obtain c where c: "Model_Character_init ''Lyra'' ''Elf'' ''Rogue'' 1 default_abilities None = Inr c"
    using C9_proficiency_bonus_invariant [of 1 "''Lyra''" "''Elf''" "''Rogue''" default_abilities None]
    by auto
  have lv: "level ((level_up ^^ 4) c) = 5"
    and pb: "proficiency_bonus ((level_up ^^ 4) c) = 2 + (level ((level_up ^^ 4) c) - 1) div 4"
    using C9_proficiency_bonus_invariant [of 1 "''Lyra''" "''Elf''" "''Rogue''" default_abilities None] c
    by auto
  from pb lv have "proficiency_bonus ((level_up ^^ 4) c) = 3" by simp
  with bad c lv show ?thesis by blast
qed

section \<open>The dice roller\<close>

lemma not_digit_d: "\<not> is_digit I 100"
  by (simp add: is_digit_def decimal_value_def)

lemma not_digit_sign: "is_sign c \<Longrightarrow> \<not> is_digit I c"
  by (auto simp: is_digit_def is_sign_def decimal_value_def)

lemma digit_not_sign: "is_digit I c \<Longrightarrow> \<not> is_sign c"
  using not_digit_sign by blast

lemma str_nat_digit: "n < 10 \<Longrightarrow> str_nat n = [digit_char n]"
  by (simp add: str_nat.simps [of n])

lemma str_nat_step: "10 \<le> n \<Longrightarrow> str_nat n = str_nat (n div 10) @ [digit_char (n mod 10)]"
  by (simp add: str_nat.simps [of n])

lemma str_nat_4300: "str_nat 4300 = ''4300''"
  by (simp add: str_nat_step str_nat_digit digit_char_def)

lemma str_nat_4301: "str_nat 4301 = ''4301''"
  by (simp add: str_nat_step str_nat_digit digit_char_def)

lemma empty_range_1_1: "empty_range 1 1 = ValueError ''empty range for randrange() (1, 1, 0)''"
  by (simp add: empty_range_def str_int_def str_nat_digit digit_char_def)

lemma int_limit_error_default:
  "int_limit_error 4300 4301 =
     ValueError (''Exceeds the limit (4300 digits) for integer string conversion: ''
                 @ ''value has 4301 digits; use sys.set_int_max_str_digits() to increase the limit'')"
  by (simp add: int_limit_error_def str_nat_4300 str_nat_4301)

lemma in_set_splits: "(a, b) \<in> set (splits xs) \<longleftrightarrow> a @ b = xs"
proof (induction xs arbitrary: a)
  case Nil
  show ?case by auto
next
  case (Cons x xs)
  show ?case
  proof (cases a)
    case Nil
    then show ?thesis by auto
  next
    case (Cons y ys)
    then show ?thesis using Cons.IH [of ys] by auto
  qed
qed

lemma py_int_digits:
  assumes "digits1 I ds"
  shows "py_int I ds =
     (if over_limit I ds then Inl (int_limit_error (int_max_str_digits I) (length ds))
      else Inr (int (digits_val I ds)))"
proof -
  obtain c r where ds: "ds = c # r" and c: "is_digit I c"
    using assms by (cases ds) (auto simp: digits1_def)
  have "\<not> is_sign c" "c \<noteq> 45"
    using c digit_not_sign [of I c] by (auto simp: is_sign_def)
  then show ?thesis
    using assms by (simp add: py_int_def ds Let_def)
qed

lemma py_int_signed:
  assumes "is_sign c" and "digits1 I ds"
  shows "py_int I (c # ds) =
     (if over_limit I ds then Inl (int_limit_error (int_max_str_digits I) (length ds))
      else Inr (if c = 45 then - int (digits_val I ds) else int (digits_val I ds)))"
  using assms by (simp add: py_int_def Let_def)

lemma randint_ok:
  assumes "randbelow_in_range L" "1 \<le> sides"
  shows "\<exists>v g'. randint L g 1 sides = (Inr v, g') \<and> 1 \<le> v \<and> v \<le> sides"
proof -
  obtain r g' where r: "randbelow L g (nat sides) = (r, g')" by (cases "randbelow L g (nat sides)")
  have "fst (randbelow L g (nat sides)) < nat sides"
    using assms by (simp add: randbelow_in_range_def)
  with r have "r < nat sides" by simp
  with assms(2) r show ?thesis by (simp add: randint_def)
qed

lemma randint_succeeds:
  "1 \<le> sides \<Longrightarrow> \<exists>v g'. randint L g 1 sides = (Inr v, g')"
  by (cases "randbelow L g (nat sides)") (simp add: randint_def)

lemma randint_empty:
  "sides < 1 \<Longrightarrow> randint L g 1 sides = (Inl (empty_range 1 (sides + 1)), g)"
  by (simp add: randint_def)

lemma roll_dice_ok:
  assumes "randbelow_in_range L" "1 \<le> sides"
  shows "\<exists>rolls g'. roll_dice L sides n g = (Inr rolls, g') \<and> length rolls = n
           \<and> (\<forall>r \<in> set rolls. 1 \<le> r \<and> r \<le> sides)"
proof (induction n arbitrary: g)
  case 0
  show ?case by simp
next
  case (Suc n)
  obtain v g1 where v: "randint L g 1 sides = (Inr v, g1)" "1 \<le> v" "v \<le> sides"
    using randint_ok [OF assms] by blast
  obtain rolls g2 where rs: "roll_dice L sides n g1 = (Inr rolls, g2)" "length rolls = n"
    "\<forall>r \<in> set rolls. 1 \<le> r \<and> r \<le> sides"
    using Suc.IH by blast
  show ?case using v rs by simp
qed

lemma roll_dice_succeeds:
  assumes "1 \<le> sides \<or> n = 0"
  shows "\<exists>rolls g'. roll_dice L sides n g = (Inr rolls, g')"
proof (cases n)
  case 0
  then show ?thesis by simp
next
  case (Suc k)
  with assms have s: "1 \<le> sides" by simp
  have "\<exists>rolls g'. roll_dice L sides j g = (Inr rolls, g')" for j g
  proof (induction j arbitrary: g)
    case 0
    show ?case by simp
  next
    case (Suc j)
    obtain v g1 where v: "randint L g 1 sides = (Inr v, g1)"
      using randint_succeeds [OF s, of L g] by blast
    obtain rolls g2 where "roll_dice L sides j g1 = (Inr rolls, g2)"
      using Suc.IH by blast
    with v show ?case by simp
  qed
  then show ?thesis .
qed

lemma roll_dice_empty:
  "sides < 1 \<Longrightarrow> 0 < n \<Longrightarrow> roll_dice L sides n g = (Inl (empty_range 1 (sides + 1)), g)"
  by (cases n) (simp_all add: randint_empty)

lemma roll_dice_length:
  "roll_dice L sides n g = (Inr rolls, g') \<Longrightarrow> length rolls = n"
  by (induction n arbitrary: g rolls g') (auto split: prod.splits sum.splits)

lemma takeWhile_digits_stop:
  "list_all P ds \<Longrightarrow> \<not> P c \<Longrightarrow> takeWhile P (ds @ c # r) = ds"
  by (induction ds) auto

lemma dropWhile_digits_stop:
  "list_all P ds \<Longrightarrow> \<not> P c \<Longrightarrow> dropWhile P (ds @ c # r) = c # r"
  by (induction ds) auto

lemma takeWhile_digits_all: "list_all P ds \<Longrightarrow> takeWhile P ds = ds"
  by (induction ds) auto

lemma dropWhile_digits_all: "list_all P ds \<Longrightarrow> dropWhile P ds = []"
  by (induction ds) auto

lemma list_all_takeWhile: "list_all P (takeWhile P xs)"
  by (induction xs) auto

lemma fullmatch_complete:
  assumes "roll_re_lang I n s m e"
  shows "roll_re_fullmatch I e = Some (n, s, m)"
proof (cases m)
  case None
  with assms have n: "digits1 I n" and s: "digits1 I s" and e: "e = n @ 100 # s"
    by (auto simp: roll_re_lang_def)
  show ?thesis
    using n s None
    by (simp add: e roll_re_fullmatch_def digits1_def takeWhile_digits_stop
        dropWhile_digits_stop not_digit_d takeWhile_digits_all dropWhile_digits_all)
next
  case (Some x)
  with assms obtain c ms where n: "digits1 I n" and s: "digits1 I s" and x: "x = c # ms"
    and c: "is_sign c" and ms: "digits1 I ms" and e: "e = n @ 100 # s @ c # ms"
    by (cases x) (auto simp: roll_re_lang_def)
  show ?thesis
    using n s c ms Some x
    by (simp add: e roll_re_fullmatch_def digits1_def takeWhile_digits_stop
        dropWhile_digits_stop not_digit_d not_digit_sign)
qed

lemma fullmatch_sound:
  assumes "roll_re_fullmatch I e = Some (n, s, m)"
  shows "roll_re_lang I n s m e"
proof -
  let ?num = "takeWhile (is_digit I) e" and ?r1 = "dropWhile (is_digit I) e"
  from assms obtain r2 where num: "?num \<noteq> []" and r1: "?r1 = 100 # r2"
    by (auto simp: roll_re_fullmatch_def Let_def split: if_splits list.splits)
  let ?sides = "takeWhile (is_digit I) r2" and ?r3 = "dropWhile (is_digit I) r2"
  from assms num r1 have sides: "?sides \<noteq> []"
    by (auto simp: roll_re_fullmatch_def Let_def split: if_splits list.splits)
  have e: "e = ?num @ 100 # ?sides @ ?r3"
    by (metis r1 takeWhile_dropWhile_id)
  have dn: "digits1 I ?num" and ds: "digits1 I ?sides"
    using num sides by (simp_all add: digits1_def list_all_takeWhile)
  show ?thesis
  proof (cases ?r3)
    case Nil
    with assms num r1 sides have "n = ?num \<and> s = ?sides \<and> m = None"
      by (simp add: roll_re_fullmatch_def)
    with dn ds e Nil show ?thesis
      by (simp add: roll_re_lang_def)
  next
    case (Cons c ms)
    with assms num r1 sides have "n = ?num \<and> s = ?sides \<and> m = Some (c # ms) \<and> is_sign c \<and> digits1 I ms"
      by (simp add: roll_re_fullmatch_def split: if_splits)
    with dn ds e Cons show ?thesis
      by (simp add: roll_re_lang_def)
  qed
qed

lemma roll_re_fullmatch_iff:
  "roll_re_fullmatch I e = Some (n, s, m) \<longleftrightarrow> roll_re_lang I n s m e"
  using fullmatch_sound fullmatch_complete by blast

lemma roll_re_lang_unique:
  "roll_re_lang I n s m e \<Longrightarrow> roll_re_lang I n' s' m' e \<Longrightarrow> n' = n \<and> s' = s \<and> m' = m"
proof -
  assume a: "roll_re_lang I n s m e" and b: "roll_re_lang I n' s' m' e"
  have "Some (n, s, m) = Some (n', s', m')"
    using fullmatch_complete [OF a] fullmatch_complete [OF b] by simp
  then show ?thesis by simp
qed

lemma roll_unmatched:
  "roll_re_fullmatch I e = None \<Longrightarrow> roll L I self e = (Inl (invalid_dice_expression e), self)"
  by (simp add: roll_def)

lemma codes_letters: "codes ''d'' = [100]" "codes ''+'' = [43]" "codes ''-'' = [45]"
  by (simp_all add: codes_def)

lemma mod_int:
  assumes "roll_re_lang I n s m e"
  shows "(case m of None \<Rightarrow> Inr 0 | Some ms \<Rightarrow> if ms = [] then Inr 0 else py_int I ms) =
     (case m of
        None \<Rightarrow> Inr 0
      | Some x \<Rightarrow>
          if over_limit I (tl x) then Inl (int_limit_error (int_max_str_digits I) (length (tl x)))
          else Inr (mod_value I m))"
proof (cases m)
  case None
  then show ?thesis by simp
next
  case (Some x)
  with assms obtain c ds where x: "x = c # ds" and c: "is_sign c" and ds: "digits1 I ds"
    by (cases x) (auto simp: roll_re_lang_def)
  show ?thesis
    using Some x by (simp add: py_int_signed [OF c ds] mod_value_def)
qed

lemma roll_matched:
  assumes "roll_re_lang I n s m e" and "groups_within_limit I n s m"
  shows "roll L I self e =
     (case roll_dice L (int (digits_val I s)) (digits_val I n) (rng self) of
        (Inl err, g') \<Rightarrow> (Inl err, self\<lparr>rng := g'\<rparr>)
      | (Inr rolls, g') \<Rightarrow> (Inr (sum_list rolls + mod_value I m, rolls), self\<lparr>rng := g'\<rparr>))"
proof -
  have fm: "roll_re_fullmatch I e = Some (n, s, m)"
    using assms(1) by (rule fullmatch_complete)
  have n: "py_int I n = Inr (int (digits_val I n))" and s: "py_int I s = Inr (int (digits_val I s))"
    using assms by (simp_all add: roll_re_lang_def groups_within_limit_def py_int_digits)
  have m: "(case m of None \<Rightarrow> Inr 0 | Some ms \<Rightarrow> if ms = [] then Inr 0 else py_int I ms)
             = Inr (mod_value I m)"
    using mod_int [OF assms(1)] assms(2)
    by (cases m) (simp_all add: groups_within_limit_def mod_value_def)
  show ?thesis
    by (simp add: roll_def fm n s m)
qed

lemma roll_over_limit:
  assumes "roll_re_lang I n s m e" and "\<not> groups_within_limit I n s m"
  shows "\<exists>k. int_max_str_digits I < k
           \<and> roll L I self e = (Inl (int_limit_error (int_max_str_digits I) k), self)"
proof -
  have fm: "roll_re_fullmatch I e = Some (n, s, m)"
    using assms(1) by (rule fullmatch_complete)
  have dn: "digits1 I n" and ds: "digits1 I s"
    using assms(1) by (simp_all add: roll_re_lang_def)
  show ?thesis
  proof (cases "over_limit I n")
    case True
    then have "roll L I self e = (Inl (int_limit_error (int_max_str_digits I) (length n)), self)"
      by (simp add: roll_def fm py_int_digits [OF dn])
    with True show ?thesis by (auto simp: over_limit_def)
  next
    case n: False
    show ?thesis
    proof (cases "over_limit I s")
      case True
      then have "roll L I self e = (Inl (int_limit_error (int_max_str_digits I) (length s)), self)"
        using n by (simp add: roll_def fm py_int_digits [OF dn] py_int_digits [OF ds])
      with True show ?thesis by (auto simp: over_limit_def)
    next
      case s: False
      with n assms(2) obtain x where x: "m = Some x" and o: "over_limit I (tl x)"
        by (cases m) (auto simp: groups_within_limit_def)
      have "(case m of None \<Rightarrow> Inr 0 | Some ms \<Rightarrow> if ms = [] then Inr 0 else py_int I ms)
          = Inl (int_limit_error (int_max_str_digits I) (length (tl x)))"
        using mod_int [OF assms(1)] x o by simp
      then have "roll L I self e
          = (Inl (int_limit_error (int_max_str_digits I) (length (tl x))), self)"
        using n s by (simp add: roll_def fm py_int_digits [OF dn] py_int_digits [OF ds])
      with o show ?thesis by (auto simp: over_limit_def)
    qed
  qed
qed

lemma spec_grammar_iff:
  "spec_grammar I e \<longleftrightarrow>
     (\<exists>n s m. roll_re_lang I n s m e \<and> 0 < digits_val I n \<and> 0 < digits_val I s)"
proof
  assume "spec_grammar I e"
  then obtain count r1 where cr: "(count, r1) \<in> set (splits e)"
    and c: "positive_integer I count"
    and rest: "case r1 of [] \<Rightarrow> False
       | ch # r2 \<Rightarrow> ch = 100 \<and>
           list_ex (\<lambda>(sides, m). positive_integer I sides \<and> optional_modifier I m) (splits r2)"
    unfolding spec_grammar_def list_ex_iff by blast
  from rest obtain r2 where r1: "r1 = 100 # r2"
    and ex: "list_ex (\<lambda>(sides, m). positive_integer I sides \<and> optional_modifier I m) (splits r2)"
    by (cases r1) auto
  from ex obtain sides md where sm: "(sides, md) \<in> set (splits r2)"
    and s: "positive_integer I sides" and o: "optional_modifier I md"
    unfolding list_ex_iff by blast
  have e: "e = count @ 100 # sides @ md"
    using cr sm r1 by (simp add: in_set_splits)
  show "\<exists>n s m. roll_re_lang I n s m e \<and> 0 < digits_val I n \<and> 0 < digits_val I s"
  proof (cases md)
    case Nil
    with e c s have "roll_re_lang I count sides None e"
      by (simp add: roll_re_lang_def positive_integer_def)
    with c s show ?thesis unfolding positive_integer_def by blast
  next
    case (Cons x xs)
    with e c s o have "roll_re_lang I count sides (Some md) e"
      by (simp add: roll_re_lang_def positive_integer_def optional_modifier_def)
    with c s show ?thesis unfolding positive_integer_def by blast
  qed
next
  assume "\<exists>n s m. roll_re_lang I n s m e \<and> 0 < digits_val I n \<and> 0 < digits_val I s"
  then obtain n s m where l: "roll_re_lang I n s m e"
    and p: "0 < digits_val I n" "0 < digits_val I s"
    by blast
  define md where "md = (case m of None \<Rightarrow> [] | Some x \<Rightarrow> x)"
  from l have e: "e = n @ 100 # s @ md" and o: "optional_modifier I md"
    and d: "digits1 I n" "digits1 I s"
    by (auto simp: roll_re_lang_def md_def optional_modifier_def split: option.splits list.splits)
  have "(n, 100 # s @ md) \<in> set (splits e)" "(s, md) \<in> set (splits (s @ md))"
    by (simp_all add: in_set_splits e)
  with p o d show "spec_grammar I e"
    unfolding spec_grammar_def list_ex_iff positive_integer_def
    by (intro bexI [of _ "(n, 100 # s @ md)"]) (auto intro!: bexI [of _ "(s, md)"])
qed

text \<open>
  Claim C3, as the code has it. Let \<open>N\<close>, \<open>S\<close> and \<open>M\<close> be runs of digits, \<open>N\<close> and \<open>S\<close>
  with positive values and no longer than the interpreter's limit for \<open>int\<close>, and let
  the library's draw stay below its bound. Then \<open>roll\<close> returns on \<open>NdS\<close> and, when
  \<open>M\<close> is within the limit too, on \<open>NdS+M\<close> and \<open>NdS-M\<close>; the list of rolls has length
  \<open>N\<close>, each roll lies between 1 and \<open>S\<close>, and the total is the sum of the rolls,
  plus \<open>M\<close>, or minus \<open>M\<close>.
\<close>

theorem C3_roll_valid_expression:
  assumes "randbelow_in_range L"
    and "digits1 I N" and "digits1 I S" and "digits1 I M"
    and "0 < digits_val I N" and "0 < digits_val I S"
    and "\<not> over_limit I N" and "\<not> over_limit I S"
  shows "(\<exists>rolls self'. roll L I self (N @ codes ''d'' @ S) = (Inr (sum_list rolls, rolls), self')
            \<and> length rolls = digits_val I N
            \<and> (\<forall>r \<in> set rolls. 1 \<le> r \<and> r \<le> int (digits_val I S)))
       \<and> (\<not> over_limit I M \<longrightarrow>
            (\<exists>rolls self'. roll L I self (N @ codes ''d'' @ S @ codes ''+'' @ M)
              = (Inr (sum_list rolls + int (digits_val I M), rolls), self')
            \<and> length rolls = digits_val I N
            \<and> (\<forall>r \<in> set rolls. 1 \<le> r \<and> r \<le> int (digits_val I S))))
       \<and> (\<not> over_limit I M \<longrightarrow>
            (\<exists>rolls self'. roll L I self (N @ codes ''d'' @ S @ codes ''-'' @ M)
              = (Inr (sum_list rolls - int (digits_val I M), rolls), self')
            \<and> length rolls = digits_val I N
            \<and> (\<forall>r \<in> set rolls. 1 \<le> r \<and> r \<le> int (digits_val I S))))"
proof -
  have side: "1 \<le> int (digits_val I S)" using assms(6) by simp
  obtain rolls g' where
    r: "roll_dice L (int (digits_val I S)) (digits_val I N) (rng self) = (Inr rolls, g')"
    and len: "length rolls = digits_val I N"
    and rng: "\<forall>r \<in> set rolls. 1 \<le> r \<and> r \<le> int (digits_val I S)"
    using roll_dice_ok [OF assms(1) side, of "digits_val I N" "rng self"] by blast
  have l0: "roll_re_lang I N S None (N @ codes ''d'' @ S)"
    and lp: "roll_re_lang I N S (Some (43 # M)) (N @ codes ''d'' @ S @ codes ''+'' @ M)"
    and lm: "roll_re_lang I N S (Some (45 # M)) (N @ codes ''d'' @ S @ codes ''-'' @ M)"
    using assms(2-4) by (simp_all add: roll_re_lang_def is_sign_def codes_letters)
  have w0: "groups_within_limit I N S None"
    using assms(7,8) by (simp add: groups_within_limit_def)
  have wm: "groups_within_limit I N S (Some (c # M))" if "\<not> over_limit I M" for c
    using assms(7,8) that by (simp add: groups_within_limit_def)
  have a: "roll L I self (N @ codes ''d'' @ S) = (Inr (sum_list rolls, rolls), self\<lparr>rng := g'\<rparr>)"
    using roll_matched [OF l0 w0, of L self] r by (simp add: mod_value_def)
  have b: "roll L I self (N @ codes ''d'' @ S @ codes ''+'' @ M)
      = (Inr (sum_list rolls + int (digits_val I M), rolls), self\<lparr>rng := g'\<rparr>)"
    if "\<not> over_limit I M"
    using roll_matched [OF lp wm [OF that], of L self] r by (simp add: mod_value_def)
  have c: "roll L I self (N @ codes ''d'' @ S @ codes ''-'' @ M)
      = (Inr (sum_list rolls - int (digits_val I M), rolls), self\<lparr>rng := g'\<rparr>)"
    if "\<not> over_limit I M"
    using roll_matched [OF lm wm [OF that], of L self] r by (simp add: mod_value_def)
  from a b c len rng show ?thesis by blast
qed

lemma randbelow_in_range_example: "randbelow_in_range example_lib"
  by (simp add: randbelow_in_range_def example_lib_def)

lemma example_digits:
  "digits1 example_interp [c] \<longleftrightarrow> (48 \<le> c \<and> c \<le> 57) \<or> (1632 \<le> c \<and> c \<le> 1641)"
  by (auto simp: digits1_def is_digit_def decimal_value_def example_interp_def)

lemma example_digit_vals:
  "digits_val example_interp [c] =
     (if 48 \<le> c \<and> c \<le> 57 then c - 48 else if 1632 \<le> c \<and> c \<le> 1641 then c - 1632 else 0)"
  by (auto simp: digits_val_def digit_val_def decimal_value_def example_interp_def)

lemma short_within_limit: "length ds \<le> 4300 \<Longrightarrow> \<not> over_limit example_interp ds"
  by (simp add: over_limit_def example_interp_def)

theorem C3_roll_valid_expression_witness:
  "randbelow_in_range example_lib
   \<and> digits1 example_interp (codes ''3'') \<and> digits1 example_interp (codes ''6'')
   \<and> digits1 example_interp (codes ''2'')
   \<and> 0 < digits_val example_interp (codes ''3'') \<and> 0 < digits_val example_interp (codes ''6'')
   \<and> \<not> over_limit example_interp (codes ''3'') \<and> \<not> over_limit example_interp (codes ''6'')
   \<and> \<not> over_limit example_interp (codes ''2'')
   \<and> (\<exists>rolls self'. roll example_lib example_interp \<lparr>rng = 42\<rparr> (codes ''3d6+2'')
            = (Inr (sum_list rolls + 2, rolls), self')
          \<and> length rolls = 3 \<and> (\<forall>r \<in> set rolls. 1 \<le> r \<and> r \<le> 6))"
proof -
  have d: "digits1 example_interp (codes ''3'')" "digits1 example_interp (codes ''6'')"
    "digits1 example_interp (codes ''2'')"
    by (simp_all add: codes_def example_digits)
  have v: "digits_val example_interp (codes ''3'') = 3" "digits_val example_interp (codes ''6'') = 6"
    "digits_val example_interp (codes ''2'') = 2"
    by (simp_all add: codes_def example_digit_vals)
  have p: "0 < digits_val example_interp (codes ''3'')" "0 < digits_val example_interp (codes ''6'')"
    by (simp_all add: v)
  have w: "\<not> over_limit example_interp (codes ''3'')" "\<not> over_limit example_interp (codes ''6'')"
    "\<not> over_limit example_interp (codes ''2'')"
    by (simp_all add: codes_def short_within_limit)
  have e: "codes ''3'' @ codes ''d'' @ codes ''6'' @ codes ''+'' @ codes ''2'' = codes ''3d6+2''"
    by (simp add: codes_def)
  have "\<exists>rolls self'. roll example_lib example_interp \<lparr>rng = 42\<rparr> (codes ''3d6+2'')
            = (Inr (sum_list rolls + 2, rolls), self')
          \<and> length rolls = 3 \<and> (\<forall>r \<in> set rolls. 1 \<le> r \<and> r \<le> 6)"
    using C3_roll_valid_expression [OF randbelow_in_range_example d p w(1,2), of "\<lparr>rng = 42\<rparr>"] w(3)
    by (simp add: v e)
  with randbelow_in_range_example d p w show ?thesis by blast
qed

lemma leading_zeros_val: "digits_val I (replicate k 48 @ ds) = digits_val I ds"
proof -
  have "foldl (\<lambda>acc c. 10 * acc + digit_val I c) 0 (replicate k 48) = 0"
    by (induction k) (simp_all add: digit_val_def decimal_value_def)
  then show ?thesis by (simp add: digits_val_def)
qed

lemma leading_zeros_digits: "digits1 I (replicate k 48 @ [49])"
  by (simp add: digits1_def is_digit_def decimal_value_def list_all_iff)

lemma long_count_expr_lang:
  "roll_re_lang example_interp (replicate 4300 48 @ [49]) [54] None long_count_expr"
  unfolding roll_re_lang_def long_count_expr_def
  using leading_zeros_digits [of example_interp 4300]
  by (simp add: codes_def example_digits)

lemma long_count_over_limit: "over_limit example_interp (replicate 4300 48 @ [49])"
  by (simp add: over_limit_def example_interp_def)

lemma py_int_long_count:
  "py_int example_interp (replicate 4300 48 @ [49]) = Inl (int_limit_error 4300 4301)"
  using py_int_digits [OF leading_zeros_digits [of example_interp 4300]] long_count_over_limit
  by (simp add: example_interp_def)

lemma roll_long_count:
  "roll L example_interp self long_count_expr = (Inl (int_limit_error 4300 4301), self)"
  using fullmatch_complete [OF long_count_expr_lang]
  by (simp add: roll_def py_int_long_count)

text \<open>
  Claim C3, as stated, fails: the count 1 written with 4300 zeros in front is a
  positive integer, the expression is in the specification's grammar, and with the
  default limit \<open>roll\<close> raises the \<open>ValueError\<close> of \<open>int\<close> on it.
\<close>

theorem C3_long_count_raises:
  "spec_grammar example_interp long_count_expr
   \<and> roll example_lib example_interp \<lparr>rng = 42\<rparr> long_count_expr
       = (Inl (ValueError (''Exceeds the limit (4300 digits) for integer string conversion: ''
             @ ''value has 4301 digits; use sys.set_int_max_str_digits() to increase the limit'')),
          \<lparr>rng = 42\<rparr>)"
proof -
  have "0 < digits_val example_interp (replicate 4300 48 @ [49])"
    "0 < digits_val example_interp [54]"
    by (simp_all add: leading_zeros_val example_digit_vals)
  with long_count_expr_lang have "spec_grammar example_interp long_count_expr"
    unfolding spec_grammar_iff by blast
  then show ?thesis
    by (simp add: roll_long_count int_limit_error_default)
qed

lemma invalid_is_no_other_error:
  "invalid_dice_expression e \<noteq> int_limit_error limit k"
  "invalid_dice_expression e \<noteq> empty_range a b"
  by (simp_all add: invalid_dice_expression_def int_limit_error_def empty_range_def)

text \<open>
  Claim C4, as the code has it. \<open>roll\<close> raises the \<open>Invalid dice expression\<close> error
  exactly when the expression is not in the language of the regular expression, where
  count, sides and modifier are any non-empty runs of decimal digits, zero included.
  A matching expression with a run of digits beyond the interpreter's limit fails with
  the \<open>ValueError\<close> of \<open>int\<close>. One within the limit, with sides 0 and a positive count,
  fails with the \<open>ValueError\<close> of \<open>randint\<close>'s empty range; every other one within the
  limit returns (a count of 0 gives the empty list). On every failure the roller, and
  so the generator state, is unchanged.
\<close>

theorem C4_roll_failure_modes:
  "(fst (roll L I self e) = Inl (invalid_dice_expression e)
      \<longleftrightarrow> \<not> (\<exists>n s m. roll_re_lang I n s m e))
   \<and> (\<forall>n s m. roll_re_lang I n s m e \<and> \<not> groups_within_limit I n s m \<longrightarrow>
         (\<exists>k. int_max_str_digits I < k
            \<and> roll L I self e = (Inl (int_limit_error (int_max_str_digits I) k), self)))
   \<and> (\<forall>n s m. roll_re_lang I n s m e \<and> groups_within_limit I n s m
            \<and> digits_val I s = 0 \<and> 0 < digits_val I n \<longrightarrow>
         roll L I self e = (Inl (ValueError ''empty range for randrange() (1, 1, 0)''), self))
   \<and> (\<forall>n s m. roll_re_lang I n s m e \<and> groups_within_limit I n s m
            \<and> (0 < digits_val I s \<or> digits_val I n = 0) \<longrightarrow>
         (\<exists>rolls self'. roll L I self e = (Inr (sum_list rolls + mod_value I m, rolls), self')
            \<and> length rolls = digits_val I n))
   \<and> (\<forall>err self'. roll L I self e = (Inl err, self') \<longrightarrow> self' = self)"
proof (cases "roll_re_fullmatch I e")
  case None
  have no: "\<not> roll_re_lang I n s m e" for n s m
    using fullmatch_complete [of I n s m e] None by auto
  have res: "roll L I self e = (Inl (invalid_dice_expression e), self)"
    using None by (rule roll_unmatched)
  show ?thesis
    by (simp add: res no)
next
  case (Some t)
  obtain n s m where t: "t = (n, s, m)" by (cases t)
  have l: "roll_re_lang I n s m e"
    using Some t fullmatch_sound by simp
  have uniq: "n' = n \<and> s' = s \<and> m' = m" if "roll_re_lang I n' s' m' e" for n' s' m'
    using roll_re_lang_unique [OF l that] .
  have ex: "\<exists>n s m. roll_re_lang I n s m e" using l by blast
  show ?thesis
  proof (cases "groups_within_limit I n s m")
    case over: False
    obtain k where k: "int_max_str_digits I < k"
      and res: "roll L I self e = (Inl (int_limit_error (int_max_str_digits I) k), self)"
      using roll_over_limit [OF l over, of L self] by blast
    show ?thesis
    proof (intro conjI allI impI)
      show "fst (roll L I self e) = Inl (invalid_dice_expression e)
          \<longleftrightarrow> \<not> (\<exists>n s m. roll_re_lang I n s m e)"
        using ex invalid_is_no_other_error(1) [of e "int_max_str_digits I" k] by (simp add: res)
    next
      fix n' s' m'
      show "\<exists>k. int_max_str_digits I < k
            \<and> roll L I self e = (Inl (int_limit_error (int_max_str_digits I) k), self)"
        using k res by blast
    next
      fix n' s' m'
      assume "roll_re_lang I n' s' m' e \<and> groups_within_limit I n' s' m'
            \<and> digits_val I s' = 0 \<and> 0 < digits_val I n'"
      with uniq [of n' s' m'] over have False by auto
      then show "roll L I self e = (Inl (ValueError ''empty range for randrange() (1, 1, 0)''), self)" ..
    next
      fix n' s' m'
      assume "roll_re_lang I n' s' m' e \<and> groups_within_limit I n' s' m'
            \<and> (0 < digits_val I s' \<or> digits_val I n' = 0)"
      with uniq [of n' s' m'] over have False by auto
      then show "\<exists>rolls self'. roll L I self e = (Inr (sum_list rolls + mod_value I m', rolls), self')
            \<and> length rolls = digits_val I n'" ..
    next
      fix err self'
      assume "roll L I self e = (Inl err, self')"
      with res show "self' = self" by simp
    qed
  next
    case within: True
    note rm = roll_matched [OF l within, of L self]
    show ?thesis
    proof (cases "0 < digits_val I s \<or> digits_val I n = 0")
      case True
      then have "1 \<le> int (digits_val I s) \<or> digits_val I n = 0" by auto
      then obtain rolls g' where
        r: "roll_dice L (int (digits_val I s)) (digits_val I n) (rng self) = (Inr rolls, g')"
        using roll_dice_succeeds [of "int (digits_val I s)" "digits_val I n" L "rng self"] by blast
      have len: "length rolls = digits_val I n"
        using r by (rule roll_dice_length)
      have res: "roll L I self e = (Inr (sum_list rolls + mod_value I m, rolls), self\<lparr>rng := g'\<rparr>)"
        using rm r by simp
      show ?thesis
      proof (intro conjI allI impI)
        show "fst (roll L I self e) = Inl (invalid_dice_expression e)
            \<longleftrightarrow> \<not> (\<exists>n s m. roll_re_lang I n s m e)"
          using ex by (simp add: res)
      next
        fix n' s' m'
        assume "roll_re_lang I n' s' m' e \<and> \<not> groups_within_limit I n' s' m'"
        with uniq [of n' s' m'] within have False by auto
        then show "\<exists>k. int_max_str_digits I < k
            \<and> roll L I self e = (Inl (int_limit_error (int_max_str_digits I) k), self)" ..
      next
        fix n' s' m'
        assume "roll_re_lang I n' s' m' e \<and> groups_within_limit I n' s' m'
            \<and> digits_val I s' = 0 \<and> 0 < digits_val I n'"
        with uniq [of n' s' m'] True have False by auto
        then show "roll L I self e = (Inl (ValueError ''empty range for randrange() (1, 1, 0)''), self)" ..
      next
        fix n' s' m'
        assume "roll_re_lang I n' s' m' e \<and> groups_within_limit I n' s' m'
            \<and> (0 < digits_val I s' \<or> digits_val I n' = 0)"
        with uniq [of n' s' m'] have "n' = n" "m' = m" by auto
        with res len show "\<exists>rolls self'. roll L I self e
              = (Inr (sum_list rolls + mod_value I m', rolls), self')
            \<and> length rolls = digits_val I n'" by simp
      next
        fix err self'
        assume "roll L I self e = (Inl err, self')"
        with res show "self' = self" by simp
      qed
    next
      case False
      then have z: "int (digits_val I s) < 1" "0 < digits_val I n" and s0: "digits_val I s = 0"
        by auto
      have res: "roll L I self e = (Inl (ValueError ''empty range for randrange() (1, 1, 0)''), self)"
        using rm roll_dice_empty [OF z, of L "rng self"] s0 by (simp add: empty_range_1_1)
      show ?thesis
      proof (intro conjI allI impI)
        show "fst (roll L I self e) = Inl (invalid_dice_expression e)
            \<longleftrightarrow> \<not> (\<exists>n s m. roll_re_lang I n s m e)"
          using ex by (simp add: res invalid_dice_expression_def)
      next
        fix n' s' m'
        assume "roll_re_lang I n' s' m' e \<and> \<not> groups_within_limit I n' s' m'"
        with uniq [of n' s' m'] within have False by auto
        then show "\<exists>k. int_max_str_digits I < k
            \<and> roll L I self e = (Inl (int_limit_error (int_max_str_digits I) k), self)" ..
      next
        fix n' s' m'
        show "roll L I self e = (Inl (ValueError ''empty range for randrange() (1, 1, 0)''), self)"
          by (rule res)
      next
        fix n' s' m'
        assume "roll_re_lang I n' s' m' e \<and> groups_within_limit I n' s' m'
            \<and> (0 < digits_val I s' \<or> digits_val I n' = 0)"
        with uniq [of n' s' m'] False have False by auto
        then show "\<exists>rolls self'. roll L I self e
              = (Inr (sum_list rolls + mod_value I m', rolls), self')
            \<and> length rolls = digits_val I n'" ..
      next
        fix err self'
        assume "roll L I self e = (Inl err, self')"
        with res show "self' = self" by simp
      qed
    qed
  qed
qed

theorem C4_roll_failure_modes_witness:
  "fst (roll example_lib example_interp \<lparr>rng = 42\<rparr> (codes ''2x6''))
      = Inl (invalid_dice_expression (codes ''2x6''))
   \<and> roll example_lib example_interp \<lparr>rng = 42\<rparr> (codes ''2d0'')
      = (Inl (ValueError ''empty range for randrange() (1, 1, 0)''), \<lparr>rng = 42\<rparr>)
   \<and> (\<exists>rolls self'. roll example_lib example_interp \<lparr>rng = 42\<rparr> (codes ''0d6-1'')
         = (Inr (sum_list rolls - 1, rolls), self') \<and> length rolls = 0)
   \<and> (\<exists>rolls self'. roll example_lib example_interp \<lparr>rng = 42\<rparr> [1635, 100, 1638]
         = (Inr (sum_list rolls, rolls), self') \<and> length rolls = 3)
   \<and> (\<exists>k. 4300 < k \<and> roll example_lib example_interp \<lparr>rng = 42\<rparr> long_count_expr
         = (Inl (int_limit_error 4300 k), \<lparr>rng = 42\<rparr>))"
proof -
  have "roll_re_fullmatch example_interp (codes ''2x6'') = None"
    by (simp add: roll_re_fullmatch_def is_digit_def decimal_value_def codes_def)
  have no: "\<not> (\<exists>n s m. roll_re_lang example_interp n s m (codes ''2x6''))"
  proof
    assume "\<exists>n s m. roll_re_lang example_interp n s m (codes ''2x6'')"
    then obtain n s m where "roll_re_lang example_interp n s m (codes ''2x6'')" by blast
    from fullmatch_complete [OF this] \<open>roll_re_fullmatch example_interp (codes ''2x6'') = None\<close>
    show False by simp
  qed
  have l1: "roll_re_lang example_interp [50] [48] None (codes ''2d0'')
      \<and> groups_within_limit example_interp [50] [48] None
      \<and> digits_val example_interp [48] = 0 \<and> 0 < digits_val example_interp [50]"
    by (simp add: roll_re_lang_def example_digits example_digit_vals codes_def
        groups_within_limit_def short_within_limit)
  have l2: "roll_re_lang example_interp [48] [54] (Some [45, 49]) (codes ''0d6-1'')
      \<and> groups_within_limit example_interp [48] [54] (Some [45, 49])
      \<and> (0 < digits_val example_interp [54] \<or> digits_val example_interp [48] = 0)"
    by (simp add: roll_re_lang_def example_digits example_digit_vals codes_def is_sign_def
        groups_within_limit_def short_within_limit)
  have l3: "roll_re_lang example_interp [1635] [1638] None [1635, 100, 1638]
      \<and> groups_within_limit example_interp [1635] [1638] None
      \<and> (0 < digits_val example_interp [1638] \<or> digits_val example_interp [1635] = 0)"
    by (simp add: roll_re_lang_def example_digits example_digit_vals
        groups_within_limit_def short_within_limit)
  have l4: "roll_re_lang example_interp (replicate 4300 48 @ [49]) [54] None long_count_expr
      \<and> \<not> groups_within_limit example_interp (replicate 4300 48 @ [49]) [54] None"
    using long_count_expr_lang long_count_over_limit by (simp add: groups_within_limit_def)
  have v: "digits_val example_interp [48] = 0" "mod_value example_interp (Some [45, 49]) = - 1"
    "digits_val example_interp [1635] = 3" "mod_value example_interp None = 0"
    by (simp_all add: example_digit_vals mod_value_def)
  have a: "fst (roll example_lib example_interp \<lparr>rng = 42\<rparr> (codes ''2x6''))
      = Inl (invalid_dice_expression (codes ''2x6''))"
    using C4_roll_failure_modes [of example_lib example_interp "\<lparr>rng = 42\<rparr>" "codes ''2x6''"] no
    by blast
  have b: "roll example_lib example_interp \<lparr>rng = 42\<rparr> (codes ''2d0'')
      = (Inl (ValueError ''empty range for randrange() (1, 1, 0)''), \<lparr>rng = 42\<rparr>)"
    using C4_roll_failure_modes [of example_lib example_interp "\<lparr>rng = 42\<rparr>" "codes ''2d0''"] l1
    by blast
  have "\<exists>rolls self'. roll example_lib example_interp \<lparr>rng = 42\<rparr> (codes ''0d6-1'')
        = (Inr (sum_list rolls + mod_value example_interp (Some [45, 49]), rolls), self')
      \<and> length rolls = digits_val example_interp [48]"
    using C4_roll_failure_modes [of example_lib example_interp "\<lparr>rng = 42\<rparr>" "codes ''0d6-1''"] l2
    by blast
  then have c: "\<exists>rolls self'. roll example_lib example_interp \<lparr>rng = 42\<rparr> (codes ''0d6-1'')
        = (Inr (sum_list rolls - 1, rolls), self') \<and> length rolls = 0"
    by (simp add: v)
  have "\<exists>rolls self'. roll example_lib example_interp \<lparr>rng = 42\<rparr> [1635, 100, 1638]
        = (Inr (sum_list rolls + mod_value example_interp None, rolls), self')
      \<and> length rolls = digits_val example_interp [1635]"
    using C4_roll_failure_modes [of example_lib example_interp "\<lparr>rng = 42\<rparr>" "[1635, 100, 1638]"] l3
    by blast
  then have d: "\<exists>rolls self'. roll example_lib example_interp \<lparr>rng = 42\<rparr> [1635, 100, 1638]
        = (Inr (sum_list rolls, rolls), self') \<and> length rolls = 3"
    by (simp add: v)
  have "\<exists>k. int_max_str_digits example_interp < k
      \<and> roll example_lib example_interp \<lparr>rng = 42\<rparr> long_count_expr
         = (Inl (int_limit_error (int_max_str_digits example_interp) k), \<lparr>rng = 42\<rparr>)"
    using C4_roll_failure_modes [of example_lib example_interp "\<lparr>rng = 42\<rparr>" long_count_expr] l4
    by blast
  then have e: "\<exists>k. 4300 < k \<and> roll example_lib example_interp \<lparr>rng = 42\<rparr> long_count_expr
         = (Inl (int_limit_error 4300 k), \<lparr>rng = 42\<rparr>)"
    by (simp add: example_interp_def)
  from a b c d e show ?thesis by blast
qed

text \<open>
  Claim C4, as stated, fails: \<open>0d6\<close> is outside the specification's grammar, whose
  count is a positive integer, and \<open>roll\<close> returns on it.
\<close>

theorem C4_roll_accepts_zero_count:
  "\<not> spec_grammar example_interp (codes ''0d6'')
   \<and> roll example_lib example_interp \<lparr>rng = 42\<rparr> (codes ''0d6'') = (Inr (0, []), \<lparr>rng = 42\<rparr>)"
proof -
  have l: "roll_re_lang example_interp [48] [54] None (codes ''0d6'')"
    by (simp add: roll_re_lang_def example_digits codes_def)
  have w: "groups_within_limit example_interp [48] [54] None"
    by (simp add: groups_within_limit_def short_within_limit)
  have z: "digits_val example_interp [48] = 0"
    by (simp add: example_digit_vals)
  have "\<not> spec_grammar example_interp (codes ''0d6'')"
  proof
    assume "spec_grammar example_interp (codes ''0d6'')"
    then obtain n s m where "roll_re_lang example_interp n s m (codes ''0d6'')"
      and p: "0 < digits_val example_interp n"
      unfolding spec_grammar_iff by blast
    from roll_re_lang_unique [OF l this(1)] have "n = [48]" by simp
    with p z show False by simp
  qed
  moreover have "roll example_lib example_interp \<lparr>rng = 42\<rparr> (codes ''0d6'')
      = (Inr (0, []), \<lparr>rng = 42\<rparr>)"
    using roll_matched [OF l w, of example_lib "\<lparr>rng = 42\<rparr>"]
    by (simp add: z mod_value_def)
  ultimately show ?thesis by simp
qed

section \<open>The director's scene progression\<close>

lemma play_next_not_started:
  "story d = None \<or> party d = None \<Longrightarrow>
     play_next (d, out) = (Some (RuntimeError ''DM.start() must be called first.''), d, out)"
  by (auto simp: play_next_def split: option.splits)

lemma list_getitem_nat:
  "i < length xs \<Longrightarrow> list_getitem xs (PInt (int i)) = Inr (xs ! i)"
  by (simp add: list_getitem_def as_index_def)

lemma list_getitem_length:
  "list_getitem xs (PInt (int (length xs))) = Inl IndexError"
  by (simp add: list_getitem_def as_index_def)

lemma play_next_step:
  assumes "story d = Some st" and "party d = Some p"
    and "current_scene_idx d = PInt (int i)" and "i < length (scenes st)"
  shows "play_next (d, out) =
     (None, d\<lparr>current_scene_idx := PInt (int i + 1)\<rparr>,
      out @ [SceneText (scene_text (scenes st ! i))]
          @ (if Suc i = length (scenes st) then [WinScreen] else []))"
  using assms
  by (auto simp: play_next_def list_getitem_nat as_index_def enter_def win_screen_def Let_def)

lemma play_next_complete:
  assumes "story d = Some st" and "party d = Some p"
    and "current_scene_idx d = PInt (int (length (scenes st)))"
  shows "play_next (d, out) = (Some IndexError, d, out)"
  using assms by (simp add: play_next_def list_getitem_length)

lemma play_n_run:
  assumes "story d = Some st" and "party d = Some p"
    and "current_scene_idx d = PInt (int i)" and "i + k \<le> length (scenes st)"
  shows "play_n k (d, out) =
     (None, d\<lparr>current_scene_idx := PInt (int (i + k))\<rparr>,
      out @ map (\<lambda>sc. SceneText (scene_text sc)) (take k (drop i (scenes st)))
          @ (if 0 < k \<and> i + k = length (scenes st) then [WinScreen] else []))"
  using assms
proof (induction k arbitrary: d i out)
  case 0
  then show ?case by simp
next
  case (Suc k)
  let ?e = "SceneText (scene_text (scenes st ! i))"
  let ?d1 = "d\<lparr>current_scene_idx := PInt (int i + 1)\<rparr>"
  have i: "i < length (scenes st)" using Suc.prems(4) by simp
  have step: "play_next (d, out) =
      (None, ?d1, out @ [?e] @ (if Suc i = length (scenes st) then [WinScreen] else []))"
    using play_next_step [OF Suc.prems(1-3) i] .
  have tk: "take (Suc k) (drop i (scenes st)) = scenes st ! i # take k (drop (Suc i) (scenes st))"
    using i by (simp add: Cons_nth_drop_Suc [symmetric])
  show ?case
  proof (cases "Suc i = length (scenes st)")
    case True
    then have k: "k = 0" using Suc.prems(4) by simp
    have res: "play_n (Suc k) (d, out) = (None, ?d1, out @ [?e] @ [WinScreen])"
      using True k by (simp add: step)
    have tk0: "map (\<lambda>sc. SceneText (scene_text sc)) (take (Suc k) (drop i (scenes st))) = [?e]"
      using True by (simp add: tk)
    have idx: "int (i + Suc k) = int i + 1" using k by simp
    have cond: "0 < Suc k \<and> i + Suc k = length (scenes st)" using True k by simp
    show ?thesis
      unfolding res tk0 idx using cond by simp
  next
    case False
    have d1: "story ?d1 = Some st" "party ?d1 = Some p"
      "current_scene_idx ?d1 = PInt (int (Suc i))"
      using Suc.prems(1,2) by simp_all
    have le: "Suc i + k \<le> length (scenes st)" using Suc.prems(4) by simp
    have "play_n (Suc k) (d, out) = play_n k (?d1, out @ [?e])"
      using False by (simp add: step)
    also have "\<dots> = (None, ?d1\<lparr>current_scene_idx := PInt (int (Suc i + k))\<rparr>,
      (out @ [?e]) @ map (\<lambda>sc. SceneText (scene_text sc)) (take k (drop (Suc i) (scenes st)))
          @ (if 0 < k \<and> Suc i + k = length (scenes st) then [WinScreen] else []))"
      using Suc.IH [OF d1 le] .
    finally show ?thesis
      using False by (simp add: tk)
  qed
qed

lemma count_scene_texts:
  "count_list (map (\<lambda>sc. SceneText (f sc)) scs) WinScreen = 0"
  by (induction scs) simp_all

lemma start_ok:
  assumes "start read_yaml dm0 path = (None, dm)"
  shows "\<exists>st. StorySetup_load read_yaml path = Inr st
           \<and> dm = dm0\<lparr>story := Some st, party := Some [], current_scene_idx := PInt 0\<rparr>"
  using assms by (auto simp: start_def split: sum.splits)

text \<open>
  Claim C2. After a successful \<open>start\<close> the director has a story, an empty party and
  the cursor 0. For that story, whatever its scenes and their \<open>choices\<close>: on any
  director holding it with the cursor at an index \<open>i\<close> below the number \<open>N\<close> of scenes,
  one \<open>play_next\<close> returns and sets the cursor to \<open>i + 1\<close>. When \<open>N\<close> is positive,
  \<open>k \<le> N\<close> calls from the fresh start all return and leave the cursor at \<open>k\<close>, and
  the win screen has been shown once when \<open>k = N\<close> and not at all before.
\<close>

theorem C2_play_next_linear:
  assumes "start read_yaml dm0 path = (None, dm)"
  shows "\<exists>st. story dm = Some st \<and> party dm = Some [] \<and> current_scene_idx dm = PInt 0
    \<and> (\<forall>d p out i. story d = Some st \<and> party d = Some p
            \<and> current_scene_idx d = PInt (int i) \<and> i < length (scenes st) \<longrightarrow>
          (\<exists>out'. play_next (d, out) = (None, d\<lparr>current_scene_idx := PInt (int i + 1)\<rparr>, out')))
    \<and> (\<forall>k out. 0 < length (scenes st) \<and> k \<le> length (scenes st) \<longrightarrow>
          (\<exists>ev. play_n k (dm, out) = (None, dm\<lparr>current_scene_idx := PInt (int k)\<rparr>, out @ ev)
             \<and> count_list ev WinScreen = (if k = length (scenes st) then 1 else 0)))"
proof -
  obtain st where dm: "dm = dm0\<lparr>story := Some st, party := Some [], current_scene_idx := PInt 0\<rparr>"
    using start_ok [OF assms] by blast
  have f: "story dm = Some st" "party dm = Some []" "current_scene_idx dm = PInt (int 0)"
    by (simp_all add: dm)
  have one: "\<exists>out'. play_next (d, out) = (None, d\<lparr>current_scene_idx := PInt (int i + 1)\<rparr>, out')"
    if "story d = Some st \<and> party d = Some p \<and> current_scene_idx d = PInt (int i)
        \<and> i < length (scenes st)" for d p out i
    using that play_next_step [of d st p i out] by blast
  have run: "\<exists>ev. play_n k (dm, out) = (None, dm\<lparr>current_scene_idx := PInt (int k)\<rparr>, out @ ev)
             \<and> count_list ev WinScreen = (if k = length (scenes st) then 1 else 0)"
    if "0 < length (scenes st) \<and> k \<le> length (scenes st)" for k out
  proof -
    let ?ev = "map (\<lambda>sc. SceneText (scene_text sc)) (take k (drop 0 (scenes st)))
          @ (if 0 < k \<and> 0 + k = length (scenes st) then [WinScreen] else [])"
    have "play_n k (dm, out) = (None, dm\<lparr>current_scene_idx := PInt (int (0 + k))\<rparr>, out @ ?ev)"
      using play_n_run [OF f, of k out] that by simp
    moreover have "count_list ?ev WinScreen = (if k = length (scenes st) then 1 else 0)"
      using that by (auto simp: count_scene_texts)
    ultimately show ?thesis by auto
  qed
  show ?thesis
  proof (intro exI [of _ st] conjI)
    show "story dm = Some st" "party dm = Some []" "current_scene_idx dm = PInt 0"
      using f by simp_all
    show "\<forall>d p out i. story d = Some st \<and> party d = Some p
            \<and> current_scene_idx d = PInt (int i) \<and> i < length (scenes st) \<longrightarrow>
          (\<exists>out'. play_next (d, out) = (None, d\<lparr>current_scene_idx := PInt (int i + 1)\<rparr>, out'))"
      using one by blast
    show "\<forall>k out. 0 < length (scenes st) \<and> k \<le> length (scenes st) \<longrightarrow>
          (\<exists>ev. play_n k (dm, out) = (None, dm\<lparr>current_scene_idx := PInt (int k)\<rparr>, out @ ev)
             \<and> count_list ev WinScreen = (if k = length (scenes st) then 1 else 0))"
      using run by blast
  qed
qed

text \<open>
  Claim C6, as the code has it. On a director whose story or party is not set, which
  is the case before \<open>start\<close>, \<open>play_next\<close> fails with the \<open>RuntimeError\<close> that asks
  for \<open>start\<close>, and neither the director (party, story, cursor, dice) nor the output
  changes: no scene is entered and the win screen is not shown.
\<close>

theorem C6_play_next_before_start:
  "(story d = None \<or> party d = None \<longrightarrow>
      play_next (d, out) = (Some (RuntimeError ''DM.start() must be called first.''), d, out))
   \<and> play_next (DM_init L seed, out)
       = (Some (RuntimeError ''DM.start() must be called first.''), DM_init L seed, out)"
  using play_next_not_started [of d out] play_next_not_started [of "DM_init L seed" out]
  by (simp add: DM_init_def)

text \<open>
  Claim C10. On a director with story and party set and the cursor equal to the
  number of scenes, \<open>play_next\<close> fails with \<open>IndexError\<close> at the lookup: the
  director, its cursor included, is unchanged, and nothing is printed, so the win
  screen is not shown again.
\<close>

theorem C10_play_next_when_complete:
  "story d = Some st \<and> party d = Some p
     \<and> current_scene_idx d = PInt (int (length (scenes st))) \<longrightarrow>
   play_next (d, out) = (Some IndexError, d, out)"
  using play_next_complete [of d st p out] by blast

lemma goblin_load:
  "\<exists>s1 s2 s3. StorySetup_load read_goblin_caves path = Inr \<lparr>scenes = [s1, s2, s3]\<rparr>"
  by (simp add: StorySetup_load_def read_goblin_caves_def goblin_caves_def StorySetup_from_dict_def
      getitem_str_def for_each_def Scene_init_def kwargs_ok_def kwarg_def)

lemma goblin_start:
  "start read_goblin_caves (DM_init example_lib None) ''goblin_caves.yml'' = (None, goblin_dm)"
proof -
  obtain s1 s2 s3 where
    "StorySetup_load read_goblin_caves ''goblin_caves.yml'' = Inr \<lparr>scenes = [s1, s2, s3]\<rparr>"
    using goblin_load by blast
  then show ?thesis by (simp add: goblin_dm_def start_def)
qed

lemma goblin_dm_fields:
  "\<exists>st. story goblin_dm = Some st \<and> length (scenes st) = 3
        \<and> party goblin_dm = Some [] \<and> current_scene_idx goblin_dm = PInt 0"
proof -
  obtain s1 s2 s3 where
    "StorySetup_load read_goblin_caves ''goblin_caves.yml'' = Inr \<lparr>scenes = [s1, s2, s3]\<rparr>"
    using goblin_load by blast
  then show ?thesis by (simp add: goblin_dm_def start_def)
qed

theorem C2_play_next_linear_witness:
  "start read_goblin_caves (DM_init example_lib None) ''goblin_caves.yml'' = (None, goblin_dm)
   \<and> (\<exists>ev. play_n 2 (goblin_dm, []) = (None, goblin_dm\<lparr>current_scene_idx := PInt 2\<rparr>, ev)
          \<and> count_list ev WinScreen = 0)
   \<and> (\<exists>ev. play_n 3 (goblin_dm, []) = (None, goblin_dm\<lparr>current_scene_idx := PInt 3\<rparr>, ev)
          \<and> count_list ev WinScreen = 1)"
proof -
  obtain st where st: "story goblin_dm = Some st" and len: "length (scenes st) = 3"
    using goblin_dm_fields by blast
  obtain st' where st': "story goblin_dm = Some st'"
    and run: "\<forall>k out. 0 < length (scenes st') \<and> k \<le> length (scenes st') \<longrightarrow>
          (\<exists>ev. play_n k (goblin_dm, out) = (None, goblin_dm\<lparr>current_scene_idx := PInt (int k)\<rparr>, out @ ev)
             \<and> count_list ev WinScreen = (if k = length (scenes st') then 1 else 0))"
    using C2_play_next_linear [OF goblin_start] by blast
  from st st' have "st' = st" by simp
  then have l: "length (scenes st') = 3" using len by simp
  have two: "\<exists>ev. play_n 2 (goblin_dm, []) = (None, goblin_dm\<lparr>current_scene_idx := PInt 2\<rparr>, ev)
          \<and> count_list ev WinScreen = 0"
    using run [rule_format, of 2 "[]"] l by simp
  have three: "\<exists>ev. play_n 3 (goblin_dm, []) = (None, goblin_dm\<lparr>current_scene_idx := PInt 3\<rparr>, ev)
          \<and> count_list ev WinScreen = 1"
    using run [rule_format, of 3 "[]"] l by simp
  from goblin_start two three show ?thesis by blast
qed

theorem C6_play_next_before_start_witness:
  "story (DM_init example_lib None) = None
   \<and> play_next (DM_init example_lib None, [])
       = (Some (RuntimeError ''DM.start() must be called first.''), DM_init example_lib None, [])"
  using C6_play_next_before_start [of "DM_init example_lib None" "[]" example_lib None]
  by (simp add: DM_init_def)

lemma goblin_run3:
  "\<exists>ev. play_n 3 (goblin_dm, []) = (None, goblin_dm\<lparr>current_scene_idx := PInt 3\<rparr>, ev)"
proof -
  obtain st where st: "story goblin_dm = Some st" "party goblin_dm = Some []"
    "current_scene_idx goblin_dm = PInt (int 0)" and len: "length (scenes st) = 3"
    using goblin_dm_fields by auto
  show ?thesis
    using play_n_run [OF st, of 3 "[]"] len by simp
qed

lemma goblin_complete:
  "play_next (goblin_dm\<lparr>current_scene_idx := PInt 3\<rparr>, ev)
     = (Some IndexError, goblin_dm\<lparr>current_scene_idx := PInt 3\<rparr>, ev)"
proof -
  obtain st where st: "story goblin_dm = Some st" "party goblin_dm = Some []"
    and len: "length (scenes st) = 3"
    using goblin_dm_fields by auto
  show ?thesis
    using play_next_complete [of "goblin_dm\<lparr>current_scene_idx := PInt 3\<rparr>" st "[]" ev] st len
    by simp
qed

text \<open>
  Claim C6, as stated, fails: a director that has played all three scenes of the
  campaign is complete, not active, and \<open>play_next\<close> on it fails with \<open>IndexError\<close>,
  not with the error that asks for \<open>start\<close>.
\<close>

theorem C6_complete_director_raises_IndexError:
  "fst (play_n 3 (goblin_dm, [])) = None
   \<and> story (fst (snd (play_n 3 (goblin_dm, [])))) \<noteq> None
   \<and> party (fst (snd (play_n 3 (goblin_dm, [])))) \<noteq> None
   \<and> current_scene_idx (fst (snd (play_n 3 (goblin_dm, [])))) = PInt 3
   \<and> fst (play_next (snd (play_n 3 (goblin_dm, [])))) = Some IndexError
   \<and> fst (play_next (snd (play_n 3 (goblin_dm, []))))
       \<noteq> Some (RuntimeError ''DM.start() must be called first.'')"
proof -
  obtain ev where r: "play_n 3 (goblin_dm, []) = (None, goblin_dm\<lparr>current_scene_idx := PInt 3\<rparr>, ev)"
    using goblin_run3 by blast
  obtain st where st: "story goblin_dm = Some st" "party goblin_dm = Some []"
    using goblin_dm_fields by auto
  show ?thesis
    using st by (simp add: r goblin_complete)
qed

theorem C10_play_next_when_complete_witness:
  "(\<exists>st p. story (goblin_dm\<lparr>current_scene_idx := PInt 3\<rparr>) = Some st
        \<and> party (goblin_dm\<lparr>current_scene_idx := PInt 3\<rparr>) = Some p
        \<and> current_scene_idx (goblin_dm\<lparr>current_scene_idx := PInt 3\<rparr>) = PInt (int (length (scenes st))))
   \<and> play_next (goblin_dm\<lparr>current_scene_idx := PInt 3\<rparr>, [WinScreen])
       = (Some IndexError, goblin_dm\<lparr>current_scene_idx := PInt 3\<rparr>, [WinScreen])"
proof -
  obtain st where st: "story goblin_dm = Some st" "party goblin_dm = Some []"
    and len: "length (scenes st) = 3"
    using goblin_dm_fields by auto
  have h: "story (goblin_dm\<lparr>current_scene_idx := PInt 3\<rparr>) = Some st
        \<and> party (goblin_dm\<lparr>current_scene_idx := PInt 3\<rparr>) = Some []
        \<and> current_scene_idx (goblin_dm\<lparr>current_scene_idx := PInt 3\<rparr>) = PInt (int (length (scenes st)))"
    using st len by simp
  with C10_play_next_when_complete [of "goblin_dm\<lparr>current_scene_idx := PInt 3\<rparr>" st "[]" "[WinScreen]"]
  show ?thesis by blast
qed

section \<open>Snapshots of the director\<close>

lemma mapM_map:
  "(\<And>x. x \<in> set xs \<Longrightarrow> f (g x) = Inr (h x)) \<Longrightarrow> mapM f (map g xs) = Inr (map h xs)"
  by (induction xs) simp_all

lemma Character_round_trip:
  "Character_from_dict (Character_to_dict c) = Inr (restored_Character c)"
  by (simp add: Character_from_dict_def Character_to_dict_def restored_Character_def
      kwargs_ok_def kwarg_def)

lemma Scene_round_trip:
  "Scene_init (Scene_asdict sc) = Inr (restored_Scene sc)"
  by (simp add: Scene_init_def Scene_asdict_def restored_Scene_def kwargs_ok_def kwarg_def)

lemma Party_round_trip:
  "Party_from_dict (Party_to_dict p) = Inr (map restored_Character p)"
  by (simp add: Party_from_dict_def Party_to_dict_def getitem_str_def for_each_def
      mapM_map Character_round_trip)

lemma Party_from_empty_dict:
  "Party_from_dict (PDict []) = Inl (KeyError ''members'')"
  by (simp add: Party_from_dict_def getitem_str_def)

lemma StorySetup_round_trip:
  "StorySetup_from_dict (StorySetup_to_dict st) = Inr \<lparr>scenes = map restored_Scene (scenes st)\<rparr>"
  by (simp add: StorySetup_from_dict_def StorySetup_to_dict_def getitem_str_def for_each_def
      mapM_map Scene_round_trip)

lemma set_state_get_state:
  "set_state L r (get_state r') = (None, r\<lparr>rng := rng r'\<rparr>)"
  by (simp add: set_state_def get_state_def)

lemma apply_from_dm_falsy_party:
  assumes "party d = None \<or> party d = Some []"
  shows "apply_to_dm L (from_dm d) d2 = (Some (KeyError ''members''), d2)"
  using assms by (auto simp: apply_to_dm_def from_dm_def Party_from_empty_dict)

lemma apply_from_dm_members:
  assumes "party d = Some p" and "p \<noteq> []" and "story d = Some st"
  shows "apply_to_dm L (from_dm d) d2 =
     (None, d2\<lparr>party := Some (map restored_Character p),
               story := Some \<lparr>scenes = map restored_Scene (scenes st)\<rparr>,
               current_scene_idx := current_scene_idx d,
               dice := (dice d2)\<lparr>rng := rng (dice d)\<rparr>\<rparr>)"
  using assms
  by (simp add: apply_to_dm_def from_dm_def Party_round_trip StorySetup_round_trip
      set_state_get_state Let_def)

lemma dm_inv_start: "dm_inv d \<Longrightarrow> dm_inv (snd (start Y d path))"
  by (auto simp: start_def dm_inv_def split: sum.splits option.splits)

lemma dm_inv_play: "dm_inv d \<Longrightarrow> dm_inv (fst (snd (play_next (d, out))))"
  by (auto simp: play_next_def dm_inv_def list_getitem_def as_index_def Let_def
      split: option.splits sum.splits if_splits)

lemma dm_inv_apply:
  assumes "dm_inv d" and "dm_inv d2"
  shows "dm_inv (snd (apply_to_dm L (from_dm d) d2))"
proof (cases "party d = None \<or> party d = Some []")
  case True
  then show ?thesis using assms(2) by (simp add: apply_from_dm_falsy_party)
next
  case False
  then obtain p where p: "party d = Some p" "p \<noteq> []" by auto
  with assms(1) obtain st where st: "story d = Some st"
    by (cases "story d") (auto simp: dm_inv_def)
  show ?thesis
    using assms(1) st by (auto simp: apply_from_dm_members [OF p st] dm_inv_def)
qed

lemma reachable_inv: "reachable L Y d \<Longrightarrow> dm_inv d"
proof (induction rule: reachable.induct)
  case (r_init seed)
  show ?case by (simp add: dm_inv_def DM_init_def)
next
  case (r_start d path)
  then show ?case by (simp add: dm_inv_start)
next
  case (r_play d out)
  then show ?case by (simp add: dm_inv_play)
next
  case (r_roll d I expr)
  then show ?case by (auto simp: dm_inv_def split: option.splits)
next
  case (r_members d p cs)
  then show ?case by (auto simp: dm_inv_def split: option.splits)
next
  case (r_apply d d2)
  then show ?case by (simp add: dm_inv_apply)
qed

text \<open>
  Claim C5, as the code has it. For every director that the operations can produce:
  when its story is set, its snapshot satisfies the invariant
  \<open>0 \<le> current_scene_idx \<le> len(scenes)\<close>; when it is not (no \<open>start\<close> yet), the
  snapshot has the cursor \<open>-1\<close> and an empty \<open>story_state\<close>.
\<close>

theorem C5_snapshot_cursor_in_range:
  assumes "reachable L read_yaml d"
  shows "(story d \<noteq> None \<longrightarrow> snapshot_invariant (from_dm d))
       \<and> (story d = None \<longrightarrow>
            gs_current_scene_idx (from_dm d) = PInt (- 1) \<and> gs_story_state (from_dm d) = PDict [])"
  using reachable_inv [OF assms]
  by (auto simp: dm_inv_def snapshot_invariant_def from_dm_def StorySetup_to_dict_def
      getitem_str_def split: option.splits)

text \<open>
  Claim C5, as stated, fails: the snapshot of a new director, on which \<open>start\<close> has
  not been called, has the cursor \<open>-1\<close>.
\<close>

theorem C5_new_director_snapshot:
  "\<not> snapshot_invariant (from_dm (DM_init example_lib None))
   \<and> gs_current_scene_idx (from_dm (DM_init example_lib None)) = PInt (- 1)"
  by (simp add: snapshot_invariant_def from_dm_def DM_init_def getitem_str_def)

lemma goblin_reachable: "reachable example_lib read_goblin_caves goblin_dm"
  unfolding goblin_dm_def by (intro reachable.r_start reachable.r_init)

theorem C5_snapshot_cursor_in_range_witness:
  "reachable example_lib read_goblin_caves (fst (snd (play_n 3 (goblin_dm, []))))
   \<and> story (fst (snd (play_n 3 (goblin_dm, [])))) \<noteq> None
   \<and> snapshot_invariant (from_dm (fst (snd (play_n 3 (goblin_dm, [])))))
   \<and> reachable example_lib read_goblin_caves (DM_init example_lib None)
   \<and> gs_current_scene_idx (from_dm (DM_init example_lib None)) = PInt (- 1)"
proof -
  have step: "reachable example_lib read_goblin_caves (fst (snd (play_n k (d, out))))"
    if "reachable example_lib read_goblin_caves d" for k d out
    using that
  proof (induction k arbitrary: d out)
    case 0
    then show ?case by simp
  next
    case (Suc k)
    obtain e d' out' where pn: "play_next (d, out) = (e, d', out')"
      by (cases "play_next (d, out)") auto
    have "reachable example_lib read_goblin_caves (fst (snd (play_next (d, out))))"
      using Suc.prems by (rule reachable.r_play)
    then have r: "reachable example_lib read_goblin_caves d'" by (simp add: pn)
    show ?case
      using Suc.IH [OF r, of out'] r by (cases e) (simp_all add: pn)
  qed
  have r3: "reachable example_lib read_goblin_caves (fst (snd (play_n 3 (goblin_dm, []))))"
    using step [OF goblin_reachable] .
  have r0: "reachable example_lib read_goblin_caves (DM_init example_lib None)"
    by (rule reachable.r_init)
  obtain ev where run: "play_n 3 (goblin_dm, []) = (None, goblin_dm\<lparr>current_scene_idx := PInt 3\<rparr>, ev)"
    using goblin_run3 by blast
  obtain st where st: "story goblin_dm = Some st"
    using goblin_dm_fields by blast
  have s3: "story (fst (snd (play_n 3 (goblin_dm, [])))) \<noteq> None"
    using st by (simp add: run)
  have s0: "story (DM_init example_lib None) = None"
    by (simp add: DM_init_def)
  from C5_snapshot_cursor_in_range [OF r3] s3 C5_snapshot_cursor_in_range [OF r0] s0 r3 r0
  show ?thesis by blast
qed

lemma asdict_inner_idem: "asdict_inner (asdict_inner v) = asdict_inner v"
proof (induction v rule: asdict_inner.induct)
  case (4 kvs)
  have "map ((\<lambda>(k, v). (k, asdict_inner v)) \<circ> (\<lambda>(k, v). (k, asdict_inner v))) kvs
      = map (\<lambda>(k, v). (k, asdict_inner v)) kvs"
    using 4 by (intro map_cong) auto
  then show ?case by simp
qed (simp_all add: comp_def cong: map_cong)

lemma to_dict_restored_Character:
  "Character_to_dict (restored_Character c) = Character_to_dict c"
  by (simp add: Character_to_dict_def restored_Character_def asdict_inner_idem)

lemma to_dict_restored_Scene:
  "Scene_asdict (restored_Scene sc) = Scene_asdict sc"
  by (simp add: Scene_asdict_def restored_Scene_def asdict_inner_idem)

lemma round_trip_with_members:
  assumes "party d = Some p" and "p \<noteq> []" and "story d = Some st"
  shows "\<exists>d'. apply_to_dm L (from_dm d) d2 = (None, d')
           \<and> party d' = Some (map restored_Character p)
           \<and> story d' = Some \<lparr>scenes = map restored_Scene (scenes st)\<rparr>
           \<and> current_scene_idx d' = current_scene_idx d
           \<and> dice d' = dice d
           \<and> from_dm d' = from_dm d"
proof -
  let ?d' = "d2\<lparr>party := Some (map restored_Character p),
               story := Some \<lparr>scenes = map restored_Scene (scenes st)\<rparr>,
               current_scene_idx := current_scene_idx d,
               dice := (dice d2)\<lparr>rng := rng (dice d)\<rparr>\<rparr>"
  have a: "apply_to_dm L (from_dm d) d2 = (None, ?d')"
    using apply_from_dm_members [OF assms] .
  have "from_dm ?d' = from_dm d"
    using assms
    by (simp add: from_dm_def Party_to_dict_def StorySetup_to_dict_def get_state_def
        to_dict_restored_Character to_dict_restored_Scene comp_def)
  with a show ?thesis by simp
qed

lemma nested_dataclasses_restored_as_dicts:
  "Character_from_dict (Character_to_dict
       \<lparr>name = PStr ''Lyra'', stats = PStats Stats_default, hp = PInt 10, xp = PInt 0,
        inventory = PInventory \<lparr>items = [''rope''], gold = 5\<rparr>\<rparr>)
   = Inr \<lparr>name = PStr ''Lyra'',
          stats = PDict [(''str'', PInt 10), (''dex'', PInt 10), (''con'', PInt 10),
                         (''int'', PInt 10), (''wis'', PInt 10), (''cha'', PInt 10)],
          hp = PInt 10, xp = PInt 0,
          inventory = PDict [(''items'', PList [PStr ''rope'']), (''gold'', PInt 5)]\<rparr>"
  by (simp add: Character_round_trip restored_Character_def Stats_default_def)

text \<open>
  Claim C1 at the director of the command loop, right after \<open>start\<close>: its party is
  set and empty, so the snapshot's \<open>party\<close> is the empty dict, and applying the
  snapshot to another director raises \<open>KeyError\<close> and leaves that director as it was,
  with no party.
\<close>

theorem C1_round_trip_fails_after_start:
  "party goblin_dm = Some [] \<and> story goblin_dm \<noteq> None
   \<and> gs_party (from_dm goblin_dm) = PDict []
   \<and> apply_to_dm example_lib (from_dm goblin_dm) (DM_init example_lib (Some 7))
       = (Some (KeyError ''members''), DM_init example_lib (Some 7))
   \<and> party (DM_init example_lib (Some 7)) = None"
proof -
  obtain st where f: "story goblin_dm = Some st" "party goblin_dm = Some []"
    using goblin_dm_fields by blast
  have "apply_to_dm example_lib (from_dm goblin_dm) (DM_init example_lib (Some 7))
       = (Some (KeyError ''members''), DM_init example_lib (Some 7))"
    using f(2) by (simp add: apply_from_dm_falsy_party)
  with f show ?thesis by (simp add: from_dm_def DM_init_def)
qed

lemma GameState_from_dict_ok:
  assumes "fst ` set kvs = set GameState_fields"
  shows "\<exists>gs. GameState_from_dict (PDict kvs) = Inr gs
           \<and> map_of kvs ''party'' = Some (gs_party gs)
           \<and> map_of kvs ''story_state'' = Some (gs_story_state gs)
           \<and> map_of kvs ''current_scene_idx'' = Some (gs_current_scene_idx gs)
           \<and> map_of kvs ''rng_state'' = Some (gs_rng_state gs)"
proof -
  have ok: "kwargs_ok GameState_fields GameState_fields kvs"
    using assms by (auto simp: kwargs_ok_def list_all_iff)
  have "k \<in> set GameState_fields \<Longrightarrow> \<exists>v. map_of kvs k = Some v" for k
    using assms by (metis domD dom_map_of_conv_image_fst)
  then obtain a b c d where "map_of kvs ''party'' = Some a" "map_of kvs ''story_state'' = Some b"
    "map_of kvs ''current_scene_idx'' = Some c" "map_of kvs ''rng_state'' = Some d"
    unfolding GameState_fields_def by (meson list.set_intros)
  then show ?thesis
    using ok by (simp add: GameState_from_dict_def kwarg_def)
qed

lemma GameState_from_dict_bad_keys:
  assumes "fst ` set kvs \<noteq> set GameState_fields"
  shows "GameState_from_dict (PDict kvs) = Inl TypeError"
proof -
  have "\<not> kwargs_ok GameState_fields GameState_fields kvs"
    using assms by (auto simp: kwargs_ok_def list_all_iff)
  then show ?thesis by (simp add: GameState_from_dict_def)
qed

lemma GameState_from_dict_not_dict:
  "\<forall>kvs. data \<noteq> PDict kvs \<Longrightarrow> GameState_from_dict data = Inl TypeError"
  by (cases data) (auto simp: GameState_from_dict_def)

text \<open>
  Claim C7, as the code has it. A parsed document that is a dict fails to load, with
  \<open>TypeError\<close>, when \<open>current_scene_idx\<close> is missing, and more generally when its keys
  are not exactly the four fields of a snapshot; with exactly these keys it loads, and
  the snapshot holds the document's values whatever they are. A document that is not a
  dict fails with \<open>TypeError\<close>, and an exception of reading or parsing the file is the
  exception of the load.
\<close>

theorem C7_load_checks_only_the_keys:
  "(read_json path = Inr (PDict kvs) \<and> ''current_scene_idx'' \<notin> fst ` set kvs \<longrightarrow>
      Serializer_load read_json path = Inl TypeError)
   \<and> (read_json path = Inr (PDict kvs) \<and> fst ` set kvs \<noteq> set GameState_fields \<longrightarrow>
      Serializer_load read_json path = Inl TypeError)
   \<and> (read_json path = Inr (PDict kvs) \<and> fst ` set kvs = set GameState_fields \<longrightarrow>
      (\<exists>gs. Serializer_load read_json path = Inr gs
         \<and> map_of kvs ''party'' = Some (gs_party gs)
         \<and> map_of kvs ''story_state'' = Some (gs_story_state gs)
         \<and> map_of kvs ''current_scene_idx'' = Some (gs_current_scene_idx gs)
         \<and> map_of kvs ''rng_state'' = Some (gs_rng_state gs)))
   \<and> (read_json path = Inr data \<and> (\<forall>kvs. data \<noteq> PDict kvs) \<longrightarrow>
      Serializer_load read_json path = Inl TypeError)
   \<and> (read_json path = Inl e \<longrightarrow> Serializer_load read_json path = Inl e)"
proof (intro conjI impI)
  assume a: "read_json path = Inr (PDict kvs) \<and> ''current_scene_idx'' \<notin> fst ` set kvs"
  then have "fst ` set kvs \<noteq> set GameState_fields"
    by (auto simp: GameState_fields_def)
  with a show "Serializer_load read_json path = Inl TypeError"
    by (simp add: Serializer_load_def GameState_from_dict_bad_keys)
next
  assume "read_json path = Inr (PDict kvs) \<and> fst ` set kvs \<noteq> set GameState_fields"
  then show "Serializer_load read_json path = Inl TypeError"
    by (simp add: Serializer_load_def GameState_from_dict_bad_keys)
next
  assume a: "read_json path = Inr (PDict kvs) \<and> fst ` set kvs = set GameState_fields"
  then have "Serializer_load read_json path = GameState_from_dict (PDict kvs)"
    by (simp add: Serializer_load_def)
  with a GameState_from_dict_ok [of kvs]
  show "\<exists>gs. Serializer_load read_json path = Inr gs
         \<and> map_of kvs ''party'' = Some (gs_party gs)
         \<and> map_of kvs ''story_state'' = Some (gs_story_state gs)
         \<and> map_of kvs ''current_scene_idx'' = Some (gs_current_scene_idx gs)
         \<and> map_of kvs ''rng_state'' = Some (gs_rng_state gs)"
    by simp
next
  assume "read_json path = Inr data \<and> (\<forall>kvs. data \<noteq> PDict kvs)"
  then show "Serializer_load read_json path = Inl TypeError"
    by (simp add: Serializer_load_def GameState_from_dict_not_dict)
next
  assume "read_json path = Inl e"
  then show "Serializer_load read_json path = Inl e"
    by (simp add: Serializer_load_def)
qed

theorem C7_load_checks_only_the_keys_witness:
  "Serializer_load
     (\<lambda>path. Inr (PDict [(''party'', PDict [(''members'', PList [])]),
                          (''story_state'', PDict [(''scenes'', PList [])]),
                          (''rng_state'', PNone :: nat pyval)]))
     ''save.json'' = Inl TypeError
   \<and> Serializer_load (\<lambda>path. Inr (PList [] :: nat pyval)) ''save.json'' = Inl TypeError
   \<and> Serializer_load (\<lambda>path. Inl OSError) ''save.json'' = (Inl OSError :: error + nat GameState)"
proof -
  let ?kvs = "[(''party'', PDict [(''members'', PList [])]),
               (''story_state'', PDict [(''scenes'', PList [])]),
               (''rng_state'', PNone :: nat pyval)]"
  have a: "''current_scene_idx'' \<notin> fst ` set ?kvs" by simp
  have "Serializer_load (\<lambda>path. Inr (PDict ?kvs)) ''save.json'' = Inl TypeError"
    using C7_load_checks_only_the_keys [of "\<lambda>path. Inr (PDict ?kvs)" "''save.json''" ?kvs] a
    by blast
  moreover have "Serializer_load (\<lambda>path. Inr (PList [] :: nat pyval)) ''save.json'' = Inl TypeError"
    using C7_load_checks_only_the_keys [of "\<lambda>path. Inr (PList [] :: nat pyval)" "''save.json''" _ "PList []"]
    by simp
  moreover have "Serializer_load (\<lambda>path. Inl OSError) ''save.json'' = (Inl OSError :: error + nat GameState)"
    using C7_load_checks_only_the_keys [of "\<lambda>path. Inl OSError" "''save.json''" _ _ OSError]
    by simp
  ultimately show ?thesis by blast
qed

text \<open>
  Claim C7, as stated, fails: a document whose four fields hold values of the wrong
  types (a string for the cursor, a number for the party) is malformed, and loads.
\<close>

theorem C7_ill_typed_document_loads:
  "Serializer_load
     (\<lambda>path. Inr (PDict [(''party'', PInt 1), (''story_state'', PStr ''none''),
                          (''current_scene_idx'', PStr ''three''),
                          (''rng_state'', PNone :: nat pyval)]))
     ''save.json''
   = Inr \<lparr>gs_party = PInt 1, gs_story_state = PStr ''none'',
          gs_current_scene_idx = PStr ''three'', gs_rng_state = PNone\<rparr>"
  by (simp add: Serializer_load_def GameState_from_dict_def GameState_fields_def
      kwargs_ok_def kwarg_def)

end
